theory Spec2Isabelle
  imports Complex_Main "HOL-Library.Multiset"
begin

section \<open>JavaScript values used by the comparison tests\<close>

text \<open>
  The similarity of a page is a JavaScript number or a string (\<open>"Error"\<close>,
  \<open>"Size mismatch"\<close>).  Numbers are modelled as reals together with the three
  special values that the division \<open>matchedPixels / totalPixels\<close> can produce
  when \<open>totalPixels\<close> is zero.  A division and a multiplication round their exact
  result to a double: the rounding \<open>rnd\<close> is a parameter, so that what is proved holds
  for the rounding of the runtime.  Pixel counts are integers far below \<open>2^53\<close>, which
  doubles hold exactly, and so is their difference.
\<close>

datatype jsnum = Fin real | NaN | PosInf | NegInf

datatype jsval = Number jsnum | Str string

text \<open>\<open>v >= c\<close> and \<open>v < c\<close> for a number \<open>v\<close> and a finite constant \<open>c\<close>;
  every comparison with \<open>NaN\<close> is false.\<close>

fun js_ge :: "jsnum \<Rightarrow> real \<Rightarrow> bool" where
  "js_ge (Fin x) c = (x \<ge> c)"
| "js_ge NaN c = False"
| "js_ge PosInf c = True"
| "js_ge NegInf c = False"

fun js_lt :: "jsnum \<Rightarrow> real \<Rightarrow> bool" where
  "js_lt (Fin x) c = (x < c)"
| "js_lt NaN c = False"
| "js_lt PosInf c = False"
| "js_lt NegInf c = True"

text \<open>\<open>a / b\<close> for finite \<open>a\<close>, \<open>b\<close>, with the IEEE results of a division by zero.\<close>

definition js_div :: "(real \<Rightarrow> real) \<Rightarrow> real \<Rightarrow> real \<Rightarrow> jsnum" where
  "js_div rnd a b =
     (if b = 0 then (if a = 0 then NaN else if a > 0 then PosInf else NegInf)
      else Fin (rnd (a / b)))"

text \<open>\<open>x * c\<close> for a positive finite constant \<open>c\<close>.\<close>

fun js_times :: "(real \<Rightarrow> real) \<Rightarrow> jsnum \<Rightarrow> real \<Rightarrow> jsnum" where
  "js_times rnd (Fin x) c = Fin (rnd (x * c))"
| "js_times rnd NaN c = NaN"
| "js_times rnd PosInf c = PosInf"
| "js_times rnd NegInf c = NegInf"

text \<open>The sign of \<open>a - b\<close> as \<open>Array.prototype.sort\<close> reads a comparator's
  result: negative, zero or positive, a \<open>NaN\<close> result counting as zero.\<close>

fun js_minus_sign :: "jsnum \<Rightarrow> jsnum \<Rightarrow> int" where
  "js_minus_sign (Fin x) (Fin y) = (if x < y then -1 else if x > y then 1 else 0)"
| "js_minus_sign NaN _ = 0"
| "js_minus_sign _ NaN = 0"
| "js_minus_sign PosInf PosInf = 0"
| "js_minus_sign NegInf NegInf = 0"
| "js_minus_sign PosInf _ = 1"
| "js_minus_sign _ PosInf = -1"
| "js_minus_sign NegInf _ = -1"
| "js_minus_sign _ NegInf = 1"

section \<open>Result records and the report's aggregation\<close>

text \<open>The objects pushed onto \<open>results\<close> by the test:
  \<open>{ pagePath, similarityPercentage }\<close>, with an \<open>error\<close> message when the
  page's \<open>try\<close> block threw.\<close>

record result =
  pagePath :: string
  similarityPercentage :: jsval
  error :: "string option"

text \<open>The three counts at the head of \<open>generateHtmlReport\<close>; the test
  \<open>typeof r.similarityPercentage === "number"\<close> is the case \<open>Number\<close>.\<close>

definition passed :: "result list \<Rightarrow> nat" where
  "passed results =
     length (filter (\<lambda>r. case similarityPercentage r of
                            Number n \<Rightarrow> js_ge n 95 | Str _ \<Rightarrow> False) results)"

definition failed :: "result list \<Rightarrow> nat" where
  "failed results =
     length (filter (\<lambda>r. case similarityPercentage r of
                            Number n \<Rightarrow> js_lt n 95 | Str _ \<Rightarrow> False) results)"

definition errors :: "result list \<Rightarrow> nat" where
  "errors results =
     length (filter (\<lambda>r. similarityPercentage r = Str ''Error'') results)"

text \<open>The comparator handed to \<open>results.sort\<close>, reduced to the sign of its result.\<close>

definition compareFn :: "result \<Rightarrow> result \<Rightarrow> int" where
  "compareFn a b =
     (if similarityPercentage a = Str ''Error'' then -1
      else if similarityPercentage b = Str ''Error'' then 1
      else (case (similarityPercentage a, similarityPercentage b) of
              (Number x, Number y) \<Rightarrow> js_minus_sign x y
            | _ \<Rightarrow> 0))"

text \<open>
  \<open>Array.prototype.sort\<close> belongs to the JavaScript runtime.  It is modelled as a
  stable insertion sort: each element in turn is placed into the sorted prefix in front
  of the first element it compares below.  The language requires a stable sort, so for
  a comparator that is a consistent ordering of the array every implementation returns
  this array.  For other comparators the language leaves the order to the
  implementation: \<open>compareFn\<close> is inconsistent once a string other than \<open>"Error"\<close>
  stands among numbers that differ (it compares as equal to each of them), and for such
  arrays the model is not the order of the runtime and nothing is stated below.  Among
  \<open>"Error"\<close> records and numbers the comparator misorders only an \<open>"Error"\<close> against
  an \<open>"Error"\<close>; what is stated for such arrays does not depend on the order of the
  \<open>"Error"\<close> records among themselves.
\<close>

fun sort_insert :: "('a \<Rightarrow> 'a \<Rightarrow> int) \<Rightarrow> 'a \<Rightarrow> 'a list \<Rightarrow> 'a list" where
  "sort_insert cmp x [] = [x]"
| "sort_insert cmp x (y # ys) =
     (if cmp x y < 0 then x # y # ys else y # sort_insert cmp x ys)"

definition array_sort :: "('a \<Rightarrow> 'a \<Rightarrow> int) \<Rightarrow> 'a list \<Rightarrow> 'a list" where
  "array_sort cmp xs = foldl (\<lambda>acc x. sort_insert cmp x acc) [] xs"

text \<open>The status shown in a page's table row.\<close>

definition statusText :: "result \<Rightarrow> string" where
  "statusText r =
     (case similarityPercentage r of
        Number n \<Rightarrow> (if js_ge n 95 then ''Pass'' else ''Fail'')
      | Str _ \<Rightarrow> ''Error'')"

text \<open>What \<open>generateHtmlReport\<close> derives from the results before it renders them:
  the page total, the three counts, and the rows in sorted order with their status.
  The HTML text itself is not modelled.\<close>

record report =
  total :: nat
  passedCount :: nat
  failedCount :: nat
  errorsCount :: nat
  rows :: "(result \<times> string) list"

definition generateHtmlReport :: "result list \<Rightarrow> report" where
  "generateHtmlReport results =
     \<lparr> total = length results,
       passedCount = passed results,
       failedCount = failed results,
       errorsCount = errors results,
       rows = map (\<lambda>r. (r, statusText r)) (array_sort compareFn results) \<rparr>"

section \<open>The environment: browser, file system and image libraries\<close>

text \<open>Decimal rendering of a number inside a template string.\<close>

definition show_digit :: "nat \<Rightarrow> char" where
  "show_digit d = ''0123456789'' ! d"

fun show_nat :: "nat \<Rightarrow> string" where
  "show_nat n = (if n < 10 then [show_digit n] else show_nat (n div 10) @ [show_digit (n mod 10)])"

text \<open>The contents of a file or of an image's pixel array, as a list of byte values.\<close>

type_synonym buffer = "nat list"

text \<open>A decoded PNG as \<open>pngjs\<close> presents it.\<close>

record png =
  width :: nat
  height :: nat
  data :: buffer

text \<open>The calls the tests make on the Playwright \<open>page\<close>.\<close>

datatype page_call =
    SetViewportSize nat nat
  | Goto string
  | Locator string
  | IsVisible
  | Click
  | WaitForTimeout nat
  | EvaluateScrollDown
  | WaitForImages
  | EvaluateScrollTop
  | Screenshot string

text \<open>The options of \<open>sharp(...).resize\<close> and of \<open>pixelmatch\<close> as the source
  passes them.\<close>

datatype fit = Contain | Cover | Fill

record resize_options =
  fit :: fit
  background :: "nat \<times> nat \<times> nat \<times> nat"

record pixelmatch_options =
  threshold :: real
  diffColor :: "(nat \<times> nat \<times> nat) option"
  diffColorAlt :: "(nat \<times> nat \<times> nat) option"

text \<open>
  Everything outside the repository is a parameter of the model.  \<open>newContext_error\<close>
  is the error, if any, of opening the browser context and its page.  \<open>page_error n c\<close> is
  the message of the error thrown by the browser when \<open>c\<close> is the \<open>n\<close>-th call made on
  the page (\<open>None\<close>: the call succeeds), so that the same call can fail at one attempt
  and succeed at the next.  \<open>banner_visible n\<close> is the answer of \<open>isVisible\<close>, and
  \<open>rendered n\<close> the image a successful \<open>screenshot\<close> writes.  \<open>mkdir_error path\<close> is
  the error, if any, of creating the directory of the file \<open>path\<close>, and
  \<open>write_error path\<close> the error, if any, of \<open>fs.writeFileSync\<close> on \<open>path\<close> (a missing
  directory, a refused permission).  \<open>rounded\<close> rounds an exact result to the double
  the runtime computes.  The image libraries are
  functions of their arguments that may throw (\<open>Inl\<close> carries the message).
  \<open>pixelmatch\<close> receives the output buffer (\<open>None\<close> for \<open>null\<close>) and returns the
  mismatch count with the contents it has drawn into that buffer.
\<close>

record world =
  newContext_error :: "string option"
  page_error :: "nat \<Rightarrow> page_call \<Rightarrow> string option"
  banner_visible :: "nat \<Rightarrow> bool"
  rendered :: "nat \<Rightarrow> buffer"
  mkdir_error :: "string \<Rightarrow> string option"
  write_error :: "string \<Rightarrow> string option"
  rounded :: "real \<Rightarrow> real"
  sharp_resize :: "buffer \<Rightarrow> nat \<Rightarrow> nat \<Rightarrow> resize_options \<Rightarrow> string + buffer"
  png_read :: "buffer \<Rightarrow> string + png"
  png_write :: "png \<Rightarrow> buffer"
  pixelmatch :: "buffer \<Rightarrow> buffer \<Rightarrow> buffer option \<Rightarrow> nat \<Rightarrow> nat
                  \<Rightarrow> pixelmatch_options \<Rightarrow> string + (nat \<times> buffer)"

text \<open>
  The state the tests change: the files under the working directory, the calls made
  on the page so far, and the lines written to the console.  Directories are not part
  of the state.
\<close>

record state =
  files :: "string \<Rightarrow> buffer option"
  calls :: "page_call list"
  console :: "string list"

text \<open>A computation that may throw: the outcome (\<open>Inl\<close> the thrown message) and
  the state it leaves behind, which a thrown error does not undo.\<close>

type_synonym 'a io = "state \<Rightarrow> (string + 'a) \<times> state"

definition andThen :: "'a io \<Rightarrow> ('a \<Rightarrow> 'b io) \<Rightarrow> 'b io" where
  "andThen m f s =
     (case m s of
        (Inl e, s') \<Rightarrow> (Inl e, s')
      | (Inr x, s') \<Rightarrow> f x s')"

definition lift :: "string + 'a \<Rightarrow> 'a io" where
  "lift r s = (r, s)"

definition console_log :: "string \<Rightarrow> unit io" where
  "console_log line s = (Inr (), s\<lparr>console := console s @ [line]\<rparr>)"

definition existsSync :: "string \<Rightarrow> state \<Rightarrow> bool" where
  "existsSync path s = (files s path \<noteq> None)"

definition readFileSync :: "string \<Rightarrow> buffer io" where
  "readFileSync path s =
     (case files s path of
        None \<Rightarrow> (Inl (''ENOENT: no such file or directory, open '' @ path), s)
      | Some b \<Rightarrow> (Inr b, s))"

definition writeFileSync :: "world \<Rightarrow> string \<Rightarrow> buffer \<Rightarrow> unit io" where
  "writeFileSync W path b s =
     (case write_error W path of
        Some e \<Rightarrow> (Inl e, s)
      | None \<Rightarrow> (Inr (), s\<lparr>files := (files s)(path \<mapsto> b)\<rparr>))"

text \<open>One awaited call on the page: it is recorded, throws if the browser says so,
  and a successful \<open>screenshot\<close> has written its file (a screenshot that cannot write
  its file is one the browser makes throw).\<close>

definition page_do :: "world \<Rightarrow> page_call \<Rightarrow> unit io" where
  "page_do W c s =
     (let n = length (calls s);
          s' = s\<lparr>calls := calls s @ [c]\<rparr>
      in case page_error W n c of
           Some e \<Rightarrow> (Inl e, s')
         | None \<Rightarrow>
             (case c of
                Screenshot path \<Rightarrow>
                  (Inr (), s'\<lparr>files := (files s')(path \<mapsto> rendered W n)\<rparr>)
              | _ \<Rightarrow> (Inr (), s')))"

text \<open>\<open>await cookieBanner.isVisible()\<close>\<close>

definition page_isVisible :: "world \<Rightarrow> bool io" where
  "page_isVisible W s =
     (let n = length (calls s);
          s' = s\<lparr>calls := calls s @ [IsVisible]\<rparr>
      in case page_error W n IsVisible of
           Some e \<Rightarrow> (Inl e, s')
         | None \<Rightarrow> (Inr (banner_visible W n), s'))"

section \<open>Capturing a screenshot\<close>

text \<open>\<open>ensureDirectoryExistence\<close>: creating the directory either succeeds or throws.\<close>

definition ensureDirectoryExistence :: "world \<Rightarrow> string \<Rightarrow> unit io" where
  "ensureDirectoryExistence W filePath s =
     (case mkdir_error W filePath of
        Some e \<Rightarrow> (Inl e, s)
      | None \<Rightarrow> (Inr (), s))"

definition acceptCookies :: "world \<Rightarrow> unit io" where
  "acceptCookies W s =
     (case andThen (page_do W (Locator ''#cookie_action_close_header'')) (\<lambda>_.
           andThen (page_isVisible W) (\<lambda>visible.
             if visible then
               andThen (page_do W Click) (\<lambda>_.
               andThen (console_log ''Accepted cookies.'') (\<lambda>_.
               page_do W (WaitForTimeout 1000)))
             else lift (Inr ()))) s of
        (Inr u, s') \<Rightarrow> (Inr u, s')
      | (Inl e, s') \<Rightarrow> console_log ''No cookie banner detected.'' s')"

text \<open>\<open>captureScreenshot\<close> of the report-generating test: one attempt inside a
  \<open>try\<close> (\<open>captureScreenshot_try\<close> is the block) whose \<open>catch\<close> logs the message.\<close>

definition captureScreenshot_try :: "world \<Rightarrow> string \<Rightarrow> string \<Rightarrow> unit io" where
  "captureScreenshot_try W url screenshotPath =
     andThen (console_log (''Navigating to: '' @ url)) (\<lambda>_.
     andThen (page_do W (Goto url)) (\<lambda>_.
     andThen (acceptCookies W) (\<lambda>_.
     andThen (page_do W EvaluateScrollDown) (\<lambda>_.
     andThen (page_do W WaitForImages) (\<lambda>_.
     andThen (console_log ''All images loaded successfully.'') (\<lambda>_.
     andThen (page_do W EvaluateScrollTop) (\<lambda>_.
     andThen (page_do W (WaitForTimeout 2000)) (\<lambda>_.
     andThen (ensureDirectoryExistence W screenshotPath) (\<lambda>_.
     andThen (page_do W (Screenshot screenshotPath)) (\<lambda>_.
     console_log (''Screenshot captured: '' @ screenshotPath)))))))))))"

definition captureScreenshot :: "world \<Rightarrow> string \<Rightarrow> string \<Rightarrow> unit io" where
  "captureScreenshot W url screenshotPath s =
     (case captureScreenshot_try W url screenshotPath s of
        (Inr u, s') \<Rightarrow> (Inr u, s')
      | (Inl e, s') \<Rightarrow>
          console_log (''Failed to capture screenshot for '' @ url @ '': '' @ e) s')"

text \<open>\<open>captureScreenshot\<close> of the two earlier test files (they differ in the
  navigation timeout only): up to \<open>maxAttempts\<close> attempts
  (\<open>captureScreenshot_attempt\<close> is the \<open>try\<close> block), then a new error.\<close>

definition maxAttempts :: nat where
  "maxAttempts = 3"

definition captureScreenshot_attempt :: "world \<Rightarrow> string \<Rightarrow> string \<Rightarrow> unit io" where
  "captureScreenshot_attempt W url path =
     andThen (page_do W (SetViewportSize 1280 720)) (\<lambda>_.
     andThen (page_do W (Goto url)) (\<lambda>_.
     page_do W (Screenshot path)))"

function captureScreenshot_attempts :: "world \<Rightarrow> string \<Rightarrow> string \<Rightarrow> nat \<Rightarrow> unit io" where
  "captureScreenshot_attempts W url path attempts s =
     (if attempts < maxAttempts then
        (case captureScreenshot_attempt W url path s of
           (Inr u, s') \<Rightarrow> (Inr u, s')
         | (Inl e, s') \<Rightarrow>
             (let attempts' = attempts + 1;
                  s1 = snd (console_log (''Attempt '' @ show_nat attempts' @ '' failed for ''
                                          @ url @ ''. Retrying...'') s')
              in if attempts' = maxAttempts then
                   (let msg = ''Failed to load '' @ url @ '' after ''
                                @ show_nat maxAttempts @ '' attempts''
                    in (Inl msg, snd (console_log msg s1)))
                 else captureScreenshot_attempts W url path attempts' s1))
      else (Inr (), s))"
  by pat_completeness auto
termination
proof (relation "measure (\<lambda>(W, url, path, attempts, s). maxAttempts - attempts)")
  show "wf (measure (\<lambda>(W, url, path, attempts, s). maxAttempts - attempts))"
    by simp
qed (simp only: in_measure prod.case)

definition captureScreenshot_retrying :: "world \<Rightarrow> string \<Rightarrow> string \<Rightarrow> unit io" where
  "captureScreenshot_retrying W url path = captureScreenshot_attempts W url path 0"

text \<open>The state in which the next attempt starts when the \<open>n\<close>-th attempt, started in
  \<open>s\<close>, has failed: the state the failed attempt left, with the line the \<open>catch\<close> logs.\<close>

definition next_attempt_state :: "world \<Rightarrow> string \<Rightarrow> string \<Rightarrow> nat \<Rightarrow> state \<Rightarrow> state" where
  "next_attempt_state W url path n s =
     snd (console_log (''Attempt '' @ show_nat n @ '' failed for '' @ url @ ''. Retrying...'')
            (snd (captureScreenshot_attempt W url path s)))"

section \<open>Comparing two screenshots\<close>

text \<open>\<open>resizeImage\<close>: read the file, let \<open>sharp\<close> resize it with \<open>fit: "contain"\<close> on a
  transparent white background, and write the result over the file.\<close>

definition resizeImage :: "world \<Rightarrow> string \<Rightarrow> nat \<Rightarrow> nat \<Rightarrow> unit io" where
  "resizeImage W imagePath w h =
     andThen (readFileSync imagePath) (\<lambda>buffer.
     andThen (lift (sharp_resize W buffer w h
                      \<lparr> fit = Contain, background = (255, 255, 255, 0) \<rparr>)) (\<lambda>resizedBuffer.
     writeFileSync W imagePath resizedBuffer))"

text \<open>\<open>new PNG({ width, height })\<close> allocates four zero bytes per pixel.\<close>

definition new_png :: "nat \<Rightarrow> nat \<Rightarrow> png" where
  "new_png w h = \<lparr> width = w, height = h, data = replicate (w * h * 4) 0 \<rparr>"

text \<open>\<open>(matchedPixels / totalPixels) * 100\<close> with
  \<open>matchedPixels = totalPixels - mismatchedPixels\<close>, a subtraction of numbers.\<close>

definition similarity :: "world \<Rightarrow> nat \<Rightarrow> nat \<Rightarrow> jsnum" where
  "similarity W totalPixels mismatchedPixels =
     (let matchedPixels = real totalPixels - real mismatchedPixels
      in js_times (rounded W) (js_div (rounded W) matchedPixels (real totalPixels)) 100)"

text \<open>\<open>compareScreenshots\<close> of the report-generating test.\<close>

definition compareScreenshots :: "world \<Rightarrow> string \<Rightarrow> string \<Rightarrow> string \<Rightarrow> jsval io" where
  "compareScreenshots W baselinePath currentPath diffPath s =
     (if \<not> existsSync baselinePath s \<or> \<not> existsSync currentPath s then
        andThen (console_log (''Missing file(s): '' @ baselinePath @ '' or '' @ currentPath))
          (\<lambda>_. lift (Inr (Str ''Error''))) s
      else
        andThen (resizeImage W baselinePath 1280 800) (\<lambda>_.
        andThen (resizeImage W currentPath 1280 800) (\<lambda>_.
        andThen (readFileSync baselinePath) (\<lambda>b1.
        andThen (lift (png_read W b1)) (\<lambda>img1.
        andThen (readFileSync currentPath) (\<lambda>b2.
        andThen (lift (png_read W b2)) (\<lambda>img2.
          if width img1 \<noteq> width img2 \<or> height img1 \<noteq> height img2 then
            andThen (console_log (''Size mismatch for '' @ baselinePath @ '' and '' @ currentPath))
              (\<lambda>_. lift (Inr (Str ''Size mismatch'')))
          else
            andThen (lift (pixelmatch W (data img1) (data img2)
                             (Some (data (new_png (width img1) (height img1))))
                             (width img1) (height img1)
                             \<lparr> threshold = 1 / 10, diffColor = Some (0, 0, 255),
                               diffColorAlt = Some (255, 165, 0) \<rparr>)) (\<lambda>drawn.
            andThen (writeFileSync W diffPath
                       (png_write W ((new_png (width img1) (height img1))
                                       \<lparr> data := snd drawn \<rparr>))) (\<lambda>_.
            andThen (lift (pixelmatch W (data img1) (data img2) None
                             (width img1) (height img1)
                             \<lparr> threshold = 1 / 10, diffColor = None,
                               diffColorAlt = None \<rparr>)) (\<lambda>counted.
            lift (Inr (Number (similarity W (width img1 * height img1) (fst counted)))))))))))))
        s)"

text \<open>\<open>compareScreenshots\<close> of the two earlier test files: no resizing, \<open>-1\<close> for a
  size mismatch, one \<open>pixelmatch\<close> call.\<close>

definition compareScreenshots_plain :: "world \<Rightarrow> string \<Rightarrow> string \<Rightarrow> string \<Rightarrow> jsnum io" where
  "compareScreenshots_plain W stagingPath prodPath diffPath =
     andThen (readFileSync stagingPath) (\<lambda>b1.
     andThen (lift (png_read W b1)) (\<lambda>img1.
     andThen (readFileSync prodPath) (\<lambda>b2.
     andThen (lift (png_read W b2)) (\<lambda>img2.
       if width img1 \<noteq> width img2 \<or> height img1 \<noteq> height img2 then
         andThen (console_log (''Skipping comparison for '' @ stagingPath @ '' and '' @ prodPath
                                 @ '' due to size mismatch.''))
           (\<lambda>_. lift (Inr (Fin (- 1))))
       else
         andThen (lift (pixelmatch W (data img1) (data img2)
                          (Some (data (new_png (width img1) (height img1))))
                          (width img1) (height img1)
                          \<lparr> threshold = 1 / 10, diffColor = None,
                            diffColorAlt = None \<rparr>)) (\<lambda>counted.
         andThen (writeFileSync W diffPath
                    (png_write W ((new_png (width img1) (height img1))
                                    \<lparr> data := snd counted \<rparr>))) (\<lambda>_.
         andThen (console_log (''Mismatched pixels for '' @ stagingPath @ '' vs '' @ prodPath
                                 @ '': '' @ show_nat (fst counted))) (\<lambda>_.
         lift (Inr (similarity W (width img1 * height img1) (fst counted))))))))))"

section \<open>The pixel differencer of the spec\<close>

text \<open>
  Modelled from the spec: the pixel differencer.  The test calls the \<open>pixelmatch\<close>
  package, whose code is not among the sources; the spec (4.3) describes it as a
  per-pixel RGBA comparison in which a pixel counts as mismatched once its channel
  deviation, on a scale from 0 to 1, exceeds the threshold.  The deviation of two pixels
  is taken as the largest difference of their four channels, over 255.  In the test the
  differencer stays the parameter \<open>pixelmatch\<close> of the environment; this definition is
  what that parameter is compared with where the spec's differencer is meant.
\<close>

type_synonym pixel = "nat \<times> nat \<times> nat \<times> nat"

text \<open>Modelled from the spec: the RGBA pixels of a buffer, four bytes each (the input of
  the missing differencer).\<close>

fun pixels :: "buffer \<Rightarrow> pixel list" where
  "pixels (r # g # b # a # rest) = (r, g, b, a) # pixels rest"
| "pixels _ = []"

text \<open>Modelled from the spec: the channel deviation of two pixels on the scale from 0
  to 1 (the colour distance of the missing differencer).\<close>

fun channel_deviation :: "pixel \<Rightarrow> pixel \<Rightarrow> real" where
  "channel_deviation (r1, g1, b1, a1) (r2, g2, b2, a2) =
     max (max \<bar>real r1 - real r2\<bar> \<bar>real g1 - real g2\<bar>)
         (max \<bar>real b1 - real b2\<bar> \<bar>real a1 - real a2\<bar>) / 255"

text \<open>Modelled from the spec: the mismatched pixel count of the missing differencer,
  the number of pixels whose deviation exceeds the threshold.\<close>

definition mismatchedPixelCount :: "real \<Rightarrow> buffer \<Rightarrow> buffer \<Rightarrow> nat" where
  "mismatchedPixelCount t img1 img2 =
     length (filter (\<lambda>pq. channel_deviation (fst pq) (snd pq) > t)
               (zip (pixels img1) (pixels img2)))"

section \<open>The test: one comparison per configured page\<close>

record environment =
  baseUrl :: string
  urls :: "string list"

record config =
  staging :: environment
  production :: environment

text \<open>\<open>src/config.js\<close> (the field \<open>prod\<close> is called \<open>production\<close> here).\<close>

definition default_config :: config where
  "default_config =
     \<lparr> staging = \<lparr> baseUrl = ''https://choctawcstg.wpengine.com'',
                    urls = [''/'', ''/durant'', ''/pocola'', ''/hochatown'', ''/grant'',
                            ''/mcalester'', ''/broken-bow'', ''/idabel'', ''/stringtown'',
                            ''/events'', ''/promotions'', ''/newsroom''] \<rparr>,
       production = \<lparr> baseUrl = ''https://www.choctawcasinos.com'',
                       urls = [''/'', ''/durant'', ''/pocola'', ''/hochatown'', ''/grant'',
                               ''/mcalester'', ''/broken-bow'', ''/idabel'', ''/stringtown'',
                               ''/events'', ''/promotions'', ''/newsroom''] \<rparr> \<rparr>"

text \<open>\<open>pagePath.replace(/\//g, "_")\<close>\<close>

definition sanitize :: "string \<Rightarrow> string" where
  "sanitize p = map (\<lambda>c. if c = CHR ''/'' then CHR ''_'' else c) p"

definition baseDir :: string where
  "baseDir = ''screenshots/'' @ ''Desktop''"

text \<open>\<open>path.join(baseDir, dir, sanitized + ".png")\<close>: the last segment holds no
  separator and is neither \<open>.\<close> nor \<open>..\<close>, so joining is concatenation.\<close>

definition screenshotPath :: "string \<Rightarrow> string \<Rightarrow> string" where
  "screenshotPath dir p = baseDir @ ''/'' @ dir @ ''/'' @ sanitize p @ ''.png''"

text \<open>The body of the \<open>for\<close> loop: the \<open>try\<close> block pushes the similarity, the
  \<open>catch\<close> pushes an \<open>"Error"\<close> record with the message.\<close>

definition comparePage :: "world \<Rightarrow> config \<Rightarrow> string \<Rightarrow> result list \<times> state \<Rightarrow> result list \<times> state" where
  "comparePage W cfg p rs =
     (let stagingUrl = baseUrl (staging cfg) @ p;
          prodUrl = baseUrl (production cfg) @ p;
          stagingScreenshotPath = screenshotPath ''staging'' p;
          prodScreenshotPath = screenshotPath ''prod'' p;
          diffScreenshotPath = screenshotPath ''diff'' p
      in case andThen (captureScreenshot W stagingUrl stagingScreenshotPath) (\<lambda>_.
              andThen (captureScreenshot W prodUrl prodScreenshotPath) (\<lambda>_.
              compareScreenshots W stagingScreenshotPath prodScreenshotPath diffScreenshotPath))
              (snd rs) of
           (Inr sim, s') \<Rightarrow>
             (fst rs @ [\<lparr> pagePath = p, similarityPercentage = sim, error = None \<rparr>], s')
         | (Inl e, s') \<Rightarrow>
             (fst rs @ [\<lparr> pagePath = p, similarityPercentage = Str ''Error'',
                          error = Some e \<rparr>], s'))"

fun comparePages :: "world \<Rightarrow> config \<Rightarrow> string list \<Rightarrow> result list \<times> state \<Rightarrow> result list \<times> state" where
  "comparePages W cfg [] rs = rs"
| "comparePages W cfg (p # ps) rs = comparePages W cfg ps (comparePage W cfg p rs)"

text \<open>The test itself, from the empty results array to the report: it fails only
  when the browser context cannot be opened.  Creating the directories, writing the
  report file and closing the context are not modelled.\<close>

definition visualComparisonTest :: "world \<Rightarrow> config \<Rightarrow> (report \<times> result list) io" where
  "visualComparisonTest W cfg s =
     (case newContext_error W of
        Some e \<Rightarrow> (Inl e, s)
      | None \<Rightarrow>
          (let rs = comparePages W cfg (urls (staging cfg)) ([], s)
           in (Inr (generateHtmlReport (fst rs), fst rs), snd rs)))"

section \<open>Concrete environments\<close>

text \<open>A browser in which every call succeeds, with image libraries small enough to
  evaluate: resizing appends a byte, a file decodes to a 2 by 2 image, and the
  differencer reports one mismatch unless the two buffers are equal.  Every file can
  be written, and the numbers that occur here and in the environments derived from it
  (3/4, 75, 1/2, 50, 1, 100) are doubles, which rounding leaves as they are.\<close>

definition world_ok :: world where
  "world_ok =
     \<lparr> newContext_error = None,
       page_error = (\<lambda>n c. None),
       banner_visible = (\<lambda>n. False),
       rendered = (\<lambda>n. [7]),
       mkdir_error = (\<lambda>path. None),
       write_error = (\<lambda>path. None),
       rounded = (\<lambda>x. x),
       sharp_resize = (\<lambda>b w h opts. Inr (b @ [0])),
       png_read = (\<lambda>b. Inr \<lparr> width = 2, height = 2, data = b \<rparr>),
       png_write = (\<lambda>img. data img),
       pixelmatch = (\<lambda>a b out w h opts.
                       Inr (if a = b then 0 else 1, replicate (w * h * 4) 0)) \<rparr>"

text \<open>The same, with every navigation refused.\<close>

definition world_down :: world where
  "world_down =
     world_ok\<lparr> page_error :=
       (\<lambda>n c. case c of Goto u \<Rightarrow> Some ''net::ERR_CONNECTION_REFUSED'' | _ \<Rightarrow> None) \<rparr>"

text \<open>The same as \<open>world_ok\<close>, with a resizer that rejects its input.\<close>

definition world_unreadable :: world where
  "world_unreadable =
     world_ok\<lparr> sharp_resize :=
       (\<lambda>b w h opts. Inl ''Input buffer contains unsupported image format'') \<rparr>"

text \<open>A browser whose first navigation times out and whose later calls succeed.\<close>

definition world_flaky :: world where
  "world_flaky =
     world_ok\<lparr> page_error := (\<lambda>n c. if n = 1 then Some ''Timeout 120000ms exceeded'' else None) \<rparr>"

text \<open>An environment whose differencer is the one of the spec: files are their own
  resized form and decode to an image of two pixels, one above the other.\<close>

definition world_pixels :: world where
  "world_pixels =
     world_ok\<lparr> sharp_resize := (\<lambda>b w h opts. Inr b),
               png_read := (\<lambda>b. Inr \<lparr> width = 1, height = 2, data = b \<rparr>),
               pixelmatch := (\<lambda>a b out w h opts.
                  Inr (mismatchedPixelCount (threshold opts) a b, replicate (w * h * 4) 0)) \<rparr>"

definition state0 :: state where
  "state0 = \<lparr> files = Map.empty, calls = [], console = [] \<rparr>"

text \<open>A working directory that still holds the screenshots of an earlier run of the
  page \<open>/\<close>.\<close>

definition state_rerun :: state where
  "state_rerun =
     \<lparr> files = [screenshotPath ''staging'' ''/'' \<mapsto> [1], screenshotPath ''prod'' ''/'' \<mapsto> [2]],
       calls = [], console = [] \<rparr>"

text \<open>Two screenshots with the same bytes, and two that differ in their second pixel.\<close>

definition state_identical :: state where
  "state_identical =
     \<lparr> files = [screenshotPath ''staging'' ''/'' \<mapsto> [10, 20, 30, 255, 200, 100, 0, 255],
                screenshotPath ''prod'' ''/'' \<mapsto> [10, 20, 30, 255, 200, 100, 0, 255]],
       calls = [], console = [] \<rparr>"

definition state_changed :: state where
  "state_changed =
     \<lparr> files = [screenshotPath ''staging'' ''/'' \<mapsto> [10, 20, 30, 255, 200, 100, 0, 255],
                screenshotPath ''prod'' ''/'' \<mapsto> [10, 20, 30, 255, 0, 100, 0, 255]],
       calls = [], console = [] \<rparr>"



definition one_page :: config where
  "one_page =
     \<lparr> staging = \<lparr> baseUrl = ''https://choctawcstg.wpengine.com'', urls = [''/''] \<rparr>,
       production = \<lparr> baseUrl = ''https://www.choctawcasinos.com'', urls = [''/''] \<rparr> \<rparr>"

definition no_pages :: config where
  "no_pages =
     \<lparr> staging = \<lparr> baseUrl = ''https://choctawcstg.wpengine.com'', urls = [] \<rparr>,
       production = \<lparr> baseUrl = ''https://www.choctawcasinos.com'', urls = [] \<rparr> \<rparr>"

section \<open>Observations on the state\<close>

text \<open>The navigations a state has seen, and the computations that leave an
  observation of the state as it was.\<close>

fun is_goto :: "page_call \<Rightarrow> bool" where
  "is_goto (Goto _) = True"
| "is_goto _ = False"

definition navigations :: "state \<Rightarrow> nat" where
  "navigations s = length (filter is_goto (calls s))"

definition preserves :: "(state \<Rightarrow> 'b) \<Rightarrow> 'a io \<Rightarrow> bool" where
  "preserves obs m = (\<forall>s. obs (snd (m s)) = obs s)"



definition is_error :: "result \<Rightarrow> bool" where
  "is_error r = (similarityPercentage r = Str ''Error'')"

definition is_similarity :: "result \<Rightarrow> bool" where
  "is_similarity r = (\<exists>x. similarityPercentage r = Number (Fin x))"


text \<open>The state in which the comparison of a page starts: after its two captures.\<close>

definition after_captures :: "world \<Rightarrow> config \<Rightarrow> string \<Rightarrow> state \<Rightarrow> state" where
  "after_captures W cfg p s =
     snd (captureScreenshot W (baseUrl (production cfg) @ p) (screenshotPath ''prod'' p)
            (snd (captureScreenshot W (baseUrl (staging cfg) @ p)
                    (screenshotPath ''staging'' p) s)))"

fun is_screenshot :: "page_call \<Rightarrow> bool" where
  "is_screenshot (Screenshot _) = True"
| "is_screenshot _ = False"

text \<open>A computation that, when it throws, has written no file.\<close>

definition leaves_files_on_error :: "'a io \<Rightarrow> bool" where
  "leaves_files_on_error m = (\<forall>s e. fst (m s) = Inl e \<longrightarrow> files (snd (m s)) = files s)"

text \<open>The message of the error the retrying capture throws after its last attempt.\<close>

definition failed_to_load :: "string \<Rightarrow> string" where
  "failed_to_load url = ''Failed to load '' @ url @ '' after 3 attempts''"

section \<open>Basic facts\<close>

declare captureScreenshot_attempts.simps [simp del]
declare show_nat.simps [simp del]

lemma show_nat_3: "show_nat 3 = ''3''"
  by (simp add: show_nat.simps show_digit_def)

lemma preservesI: "(\<And>s. obs (snd (m s)) = obs s) \<Longrightarrow> preserves obs m"
  by (simp add: preserves_def)

lemma preservesD: "preserves obs m \<Longrightarrow> obs (snd (m s)) = obs s"
  by (simp add: preserves_def)

lemma preserves_andThen:
  assumes "preserves obs m" and "\<And>x. preserves obs (f x)"
  shows "preserves obs (andThen m f)"
proof (rule preservesI)
  fix s
  obtain r s' where ms: "m s = (r, s')" by (cases "m s")
  have keep: "obs s' = obs s" using preservesD [OF assms(1), of s] ms by simp
  show "obs (snd (andThen m f s)) = obs s"
  proof (cases r)
    case (Inl e)
    then show ?thesis using ms keep by (simp add: andThen_def)
  next
    case (Inr x)
    have "obs (snd (f x s')) = obs s'" using assms(2) by (rule preservesD)
    then show ?thesis using ms Inr keep by (simp add: andThen_def)
  qed
qed

lemma andThen_console_log: "andThen (console_log l) f s = f () (snd (console_log l s))"
  by (simp add: andThen_def console_log_def)

lemma andThen_Inr: "m s = (Inr x, s') \<Longrightarrow> andThen m f s = f x s'"
  by (simp add: andThen_def)

lemma andThen_Inl: "m s = (Inl e, s') \<Longrightarrow> andThen m f s = (Inl e, s')"
  by (simp add: andThen_def)

lemma preserves_lift: "preserves obs (lift r)"
  by (simp add: preserves_def lift_def)

lemma preserves_ensureDirectoryExistence: "preserves obs (ensureDirectoryExistence W path)"
  by (simp add: preserves_def ensureDirectoryExistence_def split: option.splits)

lemma preserves_if:
  "preserves obs m \<Longrightarrow> preserves obs n \<Longrightarrow> preserves obs (if b then m else n)"
  by simp

lemma captureScreenshot_returns: "\<exists>s'. captureScreenshot W url path s = (Inr (), s')"
  unfolding captureScreenshot_def console_log_def
  by (auto split: prod.splits sum.splits)

lemma comparePage_appends:
  "\<exists>r s'. comparePage W cfg p (rs, s) = (rs @ [r], s') \<and> pagePath r = p"
  unfolding comparePage_def Let_def
  by (auto split: prod.splits sum.splits)

lemma comparePages_appends:
  "\<exists>new s'. comparePages W cfg ps (rs, s) = (rs @ new, s') \<and> map pagePath new = ps"
proof (induction ps arbitrary: rs s)
  case Nil
  show ?case by simp
next
  case (Cons p ps)
  obtain r s1 where step: "comparePage W cfg p (rs, s) = (rs @ [r], s1)" "pagePath r = p"
    using comparePage_appends by blast
  obtain new s' where rest: "comparePages W cfg ps (rs @ [r], s1) = ((rs @ [r]) @ new, s')"
      "map pagePath new = ps"
    using Cons.IH by blast
  have "comparePages W cfg (p # ps) (rs, s) = (rs @ (r # new), s')"
    using step rest by simp
  moreover have "map pagePath (r # new) = p # ps"
    using step rest by simp
  ultimately show ?case by (intro exI [of _ "r # new"] exI [of _ s'] conjI)
qed

lemma calls_page_do: "calls (snd (page_do W c s)) = calls s @ [c]"
  by (simp add: page_do_def Let_def split: option.splits page_call.splits)

lemma calls_console_log: "calls (snd (console_log l s)) = calls s"
  by (simp add: console_log_def)

lemma calls_page_isVisible: "calls (snd (page_isVisible W s)) = calls s @ [IsVisible]"
  by (simp add: page_isVisible_def Let_def split: option.splits)

lemma navigations_console_log: "preserves navigations (console_log l)"
  by (simp add: preserves_def navigations_def calls_console_log)

lemma navigations_page_do: "\<not> is_goto c \<Longrightarrow> preserves navigations (page_do W c)"
  by (simp add: preserves_def navigations_def calls_page_do)

lemma navigations_page_isVisible: "preserves navigations (page_isVisible W)"
  by (simp add: preserves_def navigations_def calls_page_isVisible)

lemma preserves_acceptCookies:
  assumes log: "\<And>l. preserves obs (console_log l)"
    and vis: "preserves obs (page_isVisible W)"
    and call: "\<And>c. \<not> is_goto c \<Longrightarrow> \<not> is_screenshot c \<Longrightarrow> preserves obs (page_do W c)"
  shows "preserves obs (acceptCookies W)"
proof (rule preservesI)
  fix s
  let ?body = "andThen (page_do W (Locator ''#cookie_action_close_header'')) (\<lambda>_.
           andThen (page_isVisible W) (\<lambda>visible.
             if visible then
               andThen (page_do W Click) (\<lambda>_.
               andThen (console_log ''Accepted cookies.'') (\<lambda>_.
               page_do W (WaitForTimeout 1000)))
             else lift (Inr ())))"
  have body: "preserves obs ?body"
    by (intro preserves_andThen preserves_if preserves_lift log vis call) simp_all
  obtain r s' where b: "?body s = (r, s')" by (cases "?body s")
  have "obs s' = obs s" using preservesD [OF body, of s] b by simp
  then show "obs (snd (acceptCookies W s)) = obs s"
    using b preservesD [OF log, of "''No cookie banner detected.''" s']
    by (cases r) (simp_all add: acceptCookies_def)
qed

lemma navigations_acceptCookies: "preserves navigations (acceptCookies W)"
  by (rule preserves_acceptCookies)
     (simp_all add: navigations_console_log navigations_page_isVisible navigations_page_do)

lemma navigations_captureScreenshot_try:
  "navigations (snd (captureScreenshot_try W url path s)) = Suc (navigations s)"
proof -
  let ?rest = "\<lambda>_::unit. andThen (acceptCookies W) (\<lambda>_.
     andThen (page_do W EvaluateScrollDown) (\<lambda>_.
     andThen (page_do W WaitForImages) (\<lambda>_.
     andThen (console_log ''All images loaded successfully.'') (\<lambda>_.
     andThen (page_do W EvaluateScrollTop) (\<lambda>_.
     andThen (page_do W (WaitForTimeout 2000)) (\<lambda>_.
     andThen (ensureDirectoryExistence W path) (\<lambda>_.
     andThen (page_do W (Screenshot path)) (\<lambda>_.
     console_log (''Screenshot captured: '' @ path)))))))))"
  have rest: "preserves navigations (?rest ())"
    by (intro preserves_andThen navigations_acceptCookies navigations_console_log
          navigations_page_do preserves_ensureDirectoryExistence) simp_all
  let ?s1 = "snd (console_log (''Navigating to: '' @ url) s)"
  have s1: "console_log (''Navigating to: '' @ url) s = (Inr (), ?s1)"
    by (simp add: console_log_def)
  have n1: "navigations ?s1 = navigations s"
    using navigations_console_log by (rule preservesD)
  obtain r s2 where g: "page_do W (Goto url) ?s1 = (r, s2)" by (cases "page_do W (Goto url) ?s1")
  have n2: "navigations s2 = Suc (navigations ?s1)"
    using calls_page_do [of W "Goto url" ?s1] g by (simp add: navigations_def)
  have "captureScreenshot_try W url path s = andThen (page_do W (Goto url)) ?rest ?s1"
    unfolding captureScreenshot_try_def by (rule andThen_console_log)
  also have "navigations (snd (andThen (page_do W (Goto url)) ?rest ?s1)) = navigations s2"
  proof (cases r)
    case (Inl e)
    then show ?thesis using g by (simp add: andThen_def)
  next
    case (Inr u)
    then show ?thesis using g preservesD [OF rest, of s2] by (simp add: andThen_def)
  qed
  finally show ?thesis using n1 n2 by simp
qed

lemma navigations_captureScreenshot:
  "navigations (snd (captureScreenshot W url path s)) = Suc (navigations s)"
proof -
  obtain r s' where t: "captureScreenshot_try W url path s = (r, s')"
    by (cases "captureScreenshot_try W url path s")
  have "navigations s' = Suc (navigations s)"
    using navigations_captureScreenshot_try [of W url path s] t by simp
  then show ?thesis
    using t preservesD [OF navigations_console_log, of _ s']
    by (cases r) (simp_all add: captureScreenshot_def)
qed

lemma length_sort_insert: "length (sort_insert cmp x ys) = Suc (length ys)"
  by (induction ys) simp_all

lemma length_foldl_sort_insert:
  "length (foldl (\<lambda>acc x. sort_insert cmp x acc) acc xs) = length acc + length xs"
  by (induction xs arbitrary: acc) (simp_all add: length_sort_insert)

lemma length_array_sort: "length (array_sort cmp xs) = length xs"
  by (simp add: array_sort_def length_foldl_sort_insert)

section \<open>One result per configured page\<close>

text \<open>
  C1.  Whatever the browser and the image libraries do, the test pushes exactly one
  result for each configured page path, in the configured order: each pass through the
  loop body appends one record for its page to the records already there and leaves
  those untouched, so the results, the report's total and the report's rows all have
  the length of the configured list.  (The test itself starts only once the browser
  context is open.)
\<close>

theorem one_result_per_page:
  assumes "newContext_error W = None"
  shows "(\<exists>rep rs s'. visualComparisonTest W cfg s = (Inr (rep, rs), s')
            \<and> map pagePath rs = urls (staging cfg)
            \<and> length rs = length (urls (staging cfg))
            \<and> total rep = length (urls (staging cfg))
            \<and> length (rows rep) = length (urls (staging cfg)))
         \<and> (\<exists>r t'. comparePage W cfg p (acc, t) = (acc @ [r], t') \<and> pagePath r = p)"
proof
  obtain new s' where loop: "comparePages W cfg (urls (staging cfg)) ([], s) = ([] @ new, s')"
    and paths: "map pagePath new = urls (staging cfg)"
    using comparePages_appends by blast
  have len: "length new = length (urls (staging cfg))"
    using paths by (metis length_map)
  have run: "visualComparisonTest W cfg s = (Inr (generateHtmlReport new, new), s')"
    using assms loop by (simp add: visualComparisonTest_def)
  have "total (generateHtmlReport new) = length (urls (staging cfg))"
    using len by (simp add: generateHtmlReport_def)
  moreover have "length (rows (generateHtmlReport new)) = length (urls (staging cfg))"
    using len by (simp add: generateHtmlReport_def length_array_sort)
  ultimately show "\<exists>rep rs s'. visualComparisonTest W cfg s = (Inr (rep, rs), s')
            \<and> map pagePath rs = urls (staging cfg)
            \<and> length rs = length (urls (staging cfg))
            \<and> total rep = length (urls (staging cfg))
            \<and> length (rows rep) = length (urls (staging cfg))"
    using run paths len by blast
next
  show "\<exists>r t'. comparePage W cfg p (acc, t) = (acc @ [r], t') \<and> pagePath r = p"
    by (rule comparePage_appends)
qed

theorem one_result_per_page_witness:
  "newContext_error world_down = None
   \<and> (\<exists>rep rs s'. visualComparisonTest world_down default_config state0 = (Inr (rep, rs), s')
         \<and> map pagePath rs = [''/'', ''/durant'', ''/pocola'', ''/hochatown'', ''/grant'',
                               ''/mcalester'', ''/broken-bow'', ''/idabel'', ''/stringtown'',
                               ''/events'', ''/promotions'', ''/newsroom'']
         \<and> length (rows rep) = 12)"
proof -
  have open_ok: "newContext_error world_down = None"
    by (simp add: world_down_def world_ok_def)
  have conf: "urls (staging default_config)
      = [''/'', ''/durant'', ''/pocola'', ''/hochatown'', ''/grant'', ''/mcalester'',
         ''/broken-bow'', ''/idabel'', ''/stringtown'', ''/events'', ''/promotions'',
         ''/newsroom'']"
    by (simp add: default_config_def)
  have twelve: "length (urls (staging default_config)) = 12"
    by (simp add: default_config_def)
  obtain rep rs s' where
    "visualComparisonTest world_down default_config state0 = (Inr (rep, rs), s')"
    "map pagePath rs = urls (staging default_config)"
    "length (rows rep) = length (urls (staging default_config))"
    using one_result_per_page [OF open_ok, where cfg = default_config and s = state0
        and p = "[]" and acc = "[]" and t = state0]
    by blast
  then show ?thesis
    using open_ok conf twelve by (intro conjI exI [of _ rep] exI [of _ rs] exI [of _ s']) simp_all
qed

section \<open>The aggregation of the report\<close>









lemma set_sort_insert: "set (sort_insert cmp x ys) = insert x (set ys)"
  by (induction ys) auto

lemma set_array_sort: "set (array_sort cmp xs) = set xs"
proof -
  have "set (foldl (\<lambda>acc x. sort_insert cmp x acc) acc xs) = set acc \<union> set xs" for acc
    by (induction xs arbitrary: acc) (simp_all add: set_sort_insert)
  then show ?thesis by (simp add: array_sort_def)
qed

lemma passed_similarity:
  "passed [\<lparr> pagePath = p, similarityPercentage = Number (Fin x), error = e \<rparr>]
     = (if x \<ge> 95 then 1 else 0)"
  by (simp add: passed_def)

lemma failed_similarity:
  "failed [\<lparr> pagePath = p, similarityPercentage = Number (Fin x), error = e \<rparr>]
     = (if x < 95 then 1 else 0)"
  by (simp add: failed_def)

lemma errors_Error:
  "errors [\<lparr> pagePath = p, similarityPercentage = Str ''Error'', error = e \<rparr>] = 1"
  by (simp add: errors_def)

















section \<open>Retrying the capture\<close>

lemma show_nat_1: "show_nat (Suc 0) = ''1''"
  by (simp add: show_nat.simps show_digit_def)

lemma show_nat_2: "show_nat 2 = ''2''"
  by (simp add: show_nat.simps show_digit_def)

lemma attempts_step:
  assumes "k < 3"
  shows "captureScreenshot_attempts W url path k s =
     (case captureScreenshot_attempt W url path s of
        (Inr u, s') \<Rightarrow> (Inr u, s')
      | (Inl e, s') \<Rightarrow>
          (if Suc k = 3
           then (Inl (failed_to_load url),
                 snd (console_log (failed_to_load url)
                        (next_attempt_state W url path (Suc k) s)))
           else captureScreenshot_attempts W url path (Suc k)
                  (next_attempt_state W url path (Suc k) s)))"
  using assms
  by (subst captureScreenshot_attempts.simps)
     (simp add: maxAttempts_def Let_def failed_to_load_def show_nat_3 next_attempt_state_def
        split: prod.splits sum.splits)

lemma attempt_succeeded:
  "fst (captureScreenshot_attempt W url path s) = Inr () \<Longrightarrow> k < 3 \<Longrightarrow>
   captureScreenshot_attempts W url path k s = captureScreenshot_attempt W url path s"
  by (cases "captureScreenshot_attempt W url path s")
     (auto simp: attempts_step split: sum.splits)

lemma attempt_failed:
  "fst (captureScreenshot_attempt W url path s) \<noteq> Inr () \<Longrightarrow> k < 3 \<Longrightarrow>
   captureScreenshot_attempts W url path k s =
     (if Suc k = 3
      then (Inl (failed_to_load url),
            snd (console_log (failed_to_load url) (next_attempt_state W url path (Suc k) s)))
      else captureScreenshot_attempts W url path (Suc k)
             (next_attempt_state W url path (Suc k) s))"
  by (cases "captureScreenshot_attempt W url path s")
     (auto simp: attempts_step split: sum.splits)

lemma failed_capture_logged:
  assumes "fst (captureScreenshot_try W url path s) = Inl e"
  shows "last (console (snd (captureScreenshot W url path s)))
           = ''Failed to capture screenshot for '' @ url @ '': '' @ e"
proof -
  obtain s' where "captureScreenshot_try W url path s = (Inl e, s')"
    using assms by (cases "captureScreenshot_try W url path s") simp
  then show ?thesis by (simp add: captureScreenshot_def console_log_def)
qed

text \<open>
  C4 (as the code has it).  The capture of the two earlier test files makes its first
  attempt; when an attempt succeeds, it returns at once what that attempt returned;
  when an attempt fails, it logs the attempt's number and makes the next one; when the
  third attempt has failed too, it throws an error whose message is the fixed text
  \<open>Failed to load <url> after 3 attempts\<close>, whatever the message of the last failure was.
  The capture of the report-generating test navigates exactly once, returns normally
  whatever happens, and logs the message of a failure of its \<open>try\<close> block.
\<close>

theorem captureScreenshot_retrying_outcome:
  "captureScreenshot_retrying W url path s =
     (let s1 = next_attempt_state W url path 1 s;
          s2 = next_attempt_state W url path 2 s1;
          s3 = next_attempt_state W url path 3 s2
      in if fst (captureScreenshot_attempt W url path s) = Inr ()
         then captureScreenshot_attempt W url path s
         else if fst (captureScreenshot_attempt W url path s1) = Inr ()
         then captureScreenshot_attempt W url path s1
         else if fst (captureScreenshot_attempt W url path s2) = Inr ()
         then captureScreenshot_attempt W url path s2
         else (Inl (''Failed to load '' @ url @ '' after 3 attempts''),
               snd (console_log (''Failed to load '' @ url @ '' after 3 attempts'') s3)))
   \<and> (\<exists>s'. captureScreenshot W url path s = (Inr (), s')
          \<and> navigations s' = Suc (navigations s)
          \<and> (fst (captureScreenshot_try W url path s) = Inl e \<longrightarrow>
               last (console s')
                 = ''Failed to capture screenshot for '' @ url @ '': '' @ e))"
proof
  let ?s1 = "next_attempt_state W url path 1 s"
  let ?s2 = "next_attempt_state W url path 2 ?s1"
  let ?s3 = "next_attempt_state W url path 3 ?s2"
  have first: "captureScreenshot_attempts W url path 0 s =
      (if fst (captureScreenshot_attempt W url path s) = Inr ()
       then captureScreenshot_attempt W url path s
       else captureScreenshot_attempts W url path 1 ?s1)"
    using attempt_succeeded [of W url path s 0] attempt_failed [of W url path s 0]
    by (simp add: numeral_2_eq_2 numeral_3_eq_3)
  have second: "captureScreenshot_attempts W url path 1 ?s1 =
      (if fst (captureScreenshot_attempt W url path ?s1) = Inr ()
       then captureScreenshot_attempt W url path ?s1
       else captureScreenshot_attempts W url path 2 ?s2)"
    using attempt_succeeded [of W url path ?s1 1] attempt_failed [of W url path ?s1 1]
    by (simp add: numeral_2_eq_2 numeral_3_eq_3)
  have third: "captureScreenshot_attempts W url path 2 ?s2 =
      (if fst (captureScreenshot_attempt W url path ?s2) = Inr ()
       then captureScreenshot_attempt W url path ?s2
       else (Inl (failed_to_load url), snd (console_log (failed_to_load url) ?s3)))"
    using attempt_succeeded [of W url path ?s2 2] attempt_failed [of W url path ?s2 2]
    by (simp add: numeral_2_eq_2 numeral_3_eq_3)
  show "captureScreenshot_retrying W url path s =
     (let s1 = next_attempt_state W url path 1 s;
          s2 = next_attempt_state W url path 2 s1;
          s3 = next_attempt_state W url path 3 s2
      in if fst (captureScreenshot_attempt W url path s) = Inr ()
         then captureScreenshot_attempt W url path s
         else if fst (captureScreenshot_attempt W url path s1) = Inr ()
         then captureScreenshot_attempt W url path s1
         else if fst (captureScreenshot_attempt W url path s2) = Inr ()
         then captureScreenshot_attempt W url path s2
         else (Inl (''Failed to load '' @ url @ '' after 3 attempts''),
               snd (console_log (''Failed to load '' @ url @ '' after 3 attempts'') s3)))"
    unfolding captureScreenshot_retrying_def Let_def
    by (simp only: first second third failed_to_load_def)
next
  obtain s' where c: "captureScreenshot W url path s = (Inr (), s')"
    using captureScreenshot_returns by blast
  have "navigations s' = Suc (navigations s)"
    using navigations_captureScreenshot [of W url path s] c by simp
  moreover have "last (console s') = ''Failed to capture screenshot for '' @ url @ '': '' @ e"
    if "fst (captureScreenshot_try W url path s) = Inl e"
    using failed_capture_logged [OF that] c by simp
  ultimately show "\<exists>s'. captureScreenshot W url path s = (Inr (), s')
          \<and> navigations s' = Suc (navigations s)
          \<and> (fst (captureScreenshot_try W url path s) = Inl e \<longrightarrow>
               last (console s')
                 = ''Failed to capture screenshot for '' @ url @ '': '' @ e)"
    using c by blast
qed

text \<open>With a first navigation that times out, the second attempt succeeds and the
  capture returns with its screenshot written; the failure has been logged with its
  number.\<close>

theorem captureScreenshot_retrying_outcome_witness:
  "fst (captureScreenshot_attempt world_flaky ''https://staging.example/'' ''shot.png'' state0)
     = Inl ''Timeout 120000ms exceeded''
   \<and> captureScreenshot_retrying world_flaky ''https://staging.example/'' ''shot.png'' state0
     = captureScreenshot_attempt world_flaky ''https://staging.example/'' ''shot.png''
         (next_attempt_state world_flaky ''https://staging.example/'' ''shot.png'' 1 state0)
   \<and> fst (captureScreenshot_retrying world_flaky ''https://staging.example/'' ''shot.png''
            state0) = Inr ()
   \<and> files (snd (captureScreenshot_retrying world_flaky ''https://staging.example/''
                   ''shot.png'' state0)) ''shot.png'' = Some [7]
   \<and> console (snd (captureScreenshot_retrying world_flaky ''https://staging.example/''
                     ''shot.png'' state0))
       = [''Attempt 1 failed for https://staging.example/. Retrying...'']"
proof -
  let ?u = "''https://staging.example/''" and ?p = "''shot.png''"
  have a1: "fst (captureScreenshot_attempt world_flaky ?u ?p state0)
              = Inl ''Timeout 120000ms exceeded''"
    by (simp add: captureScreenshot_attempt_def andThen_def page_do_def world_flaky_def
          world_ok_def state0_def Let_def)
  have s1: "next_attempt_state world_flaky ?u ?p 1 state0
      = \<lparr> files = Map.empty, calls = [SetViewportSize 1280 720, Goto ?u],
          console = [''Attempt 1 failed for https://staging.example/. Retrying...''] \<rparr>"
    by (simp add: next_attempt_state_def captureScreenshot_attempt_def andThen_def
          page_do_def console_log_def world_flaky_def world_ok_def state0_def Let_def
          show_nat_1)
  have a2: "captureScreenshot_attempt world_flaky ?u ?p
              (next_attempt_state world_flaky ?u ?p 1 state0)
      = (Inr (), \<lparr> files = [?p \<mapsto> [7]],
                   calls = [SetViewportSize 1280 720, Goto ?u,
                            SetViewportSize 1280 720, Goto ?u, Screenshot ?p],
                   console = [''Attempt 1 failed for https://staging.example/. Retrying...''] \<rparr>)"
    unfolding s1
    by (simp add: captureScreenshot_attempt_def andThen_def page_do_def world_flaky_def
          world_ok_def Let_def)
  have "captureScreenshot_retrying world_flaky ?u ?p state0
      = captureScreenshot_attempt world_flaky ?u ?p
          (next_attempt_state world_flaky ?u ?p 1 state0)"
    using captureScreenshot_retrying_outcome [of world_flaky ?u ?p state0] a1 a2
    by (simp add: Let_def)
  then show ?thesis using a1 a2 by simp
qed

text \<open>
  C4 (as the spec has it) fails on both captures: with every navigation refused by
  \<open>net::ERR_CONNECTION_REFUSED\<close>, the capture of the report-generating test navigates
  once, writes no file and returns normally, and the retrying capture throws a message
  that is not the last failure's.
\<close>

theorem capture_retry_counterexample:
  "fst (captureScreenshot world_down ''https://staging.example/'' ''shot.png'' state0) = Inr ()
   \<and> calls (snd (captureScreenshot world_down ''https://staging.example/'' ''shot.png'' state0))
       = [Goto ''https://staging.example/'']
   \<and> fst (captureScreenshot_retrying world_down ''https://staging.example/'' ''shot.png'' state0)
       = Inl ''Failed to load https://staging.example/ after 3 attempts''
   \<and> page_error world_down 5 (Goto ''https://staging.example/'')
       = Some ''net::ERR_CONNECTION_REFUSED''
   \<and> calls (snd (captureScreenshot_retrying world_down ''https://staging.example/'' ''shot.png''
                   state0))
       = [SetViewportSize 1280 720, Goto ''https://staging.example/'',
          SetViewportSize 1280 720, Goto ''https://staging.example/'',
          SetViewportSize 1280 720, Goto ''https://staging.example/'']"
  by (simp add: captureScreenshot_def captureScreenshot_try_def
        captureScreenshot_retrying_def captureScreenshot_attempts.simps maxAttempts_def
        captureScreenshot_attempt_def andThen_def console_log_def
        page_do_def world_down_def world_ok_def state0_def Let_def show_nat.simps show_digit_def)

section \<open>A missing screenshot\<close>

lemma leaves_files_on_errorD:
  "leaves_files_on_error m \<Longrightarrow> fst (m s) = Inl e \<Longrightarrow> files (snd (m s)) = files s"
  by (simp add: leaves_files_on_error_def)

lemma leaves_files_andThen:
  assumes m: "preserves files m" and f: "\<And>x. leaves_files_on_error (f x)"
  shows "leaves_files_on_error (andThen m f)"
  unfolding leaves_files_on_error_def
proof (intro allI impI)
  fix s e
  assume err: "fst (andThen m f s) = Inl e"
  obtain r s' where ms: "m s = (r, s')" by (cases "m s")
  have keep: "files s' = files s" using preservesD [OF m, of s] ms by simp
  show "files (snd (andThen m f s)) = files s"
  proof (cases r)
    case (Inl e')
    then show ?thesis using ms keep by (simp add: andThen_def)
  next
    case (Inr x)
    then have "andThen m f s = f x s'" using ms by (simp add: andThen_def)
    then show ?thesis using err keep leaves_files_on_errorD [OF f, of x s' e] by simp
  qed
qed

lemma files_console_log: "preserves files (console_log l)"
  by (simp add: preserves_def console_log_def)

lemma files_page_isVisible: "preserves files (page_isVisible W)"
  by (simp add: preserves_def page_isVisible_def Let_def split: option.splits)

lemma files_page_do: "\<not> is_screenshot c \<Longrightarrow> preserves files (page_do W c)"
  by (cases c) (simp_all add: preserves_def page_do_def Let_def split: option.splits)

lemma file_console_log: "preserves (\<lambda>s. files s q) (console_log l)"
  by (simp add: preserves_def console_log_def)

lemma file_page_isVisible: "preserves (\<lambda>s. files s q) (page_isVisible W)"
  by (simp add: preserves_def page_isVisible_def Let_def split: option.splits)

lemma file_page_do: "c \<noteq> Screenshot q \<Longrightarrow> preserves (\<lambda>s. files s q) (page_do W c)"
  by (cases c) (simp_all add: preserves_def page_do_def Let_def split: option.splits)

lemma files_acceptCookies: "preserves files (acceptCookies W)"
  by (rule preserves_acceptCookies) (simp_all add: files_console_log files_page_isVisible files_page_do)

lemma file_acceptCookies: "preserves (\<lambda>s. files s q) (acceptCookies W)"
proof (rule preserves_acceptCookies)
  fix c
  assume "\<not> is_screenshot c"
  then have "c \<noteq> Screenshot q" by auto
  then show "preserves (\<lambda>s. files s q) (page_do W c)" by (rule file_page_do)
qed (simp_all add: file_console_log file_page_isVisible)

lemma screenshot_leaves_files_on_error:
  "leaves_files_on_error (andThen (page_do W (Screenshot p)) (\<lambda>_. console_log l))"
  by (simp add: leaves_files_on_error_def andThen_def page_do_def Let_def
        console_log_def split: option.splits)

lemma try_leaves_files_on_error: "leaves_files_on_error (captureScreenshot_try W url p)"
  unfolding captureScreenshot_try_def
  by (intro leaves_files_andThen screenshot_leaves_files_on_error files_console_log
        files_acceptCookies files_page_do preserves_ensureDirectoryExistence) simp_all

lemma failed_capture_files:
  assumes "fst (captureScreenshot_try W url p s) = Inl e"
  shows "files (snd (captureScreenshot W url p s)) = files s"
proof -
  obtain s' where t: "captureScreenshot_try W url p s = (Inl e, s')"
    using assms by (cases "captureScreenshot_try W url p s") simp
  have "files s' = files s"
    using leaves_files_on_errorD [OF try_leaves_files_on_error assms] t by simp
  then show ?thesis using t by (simp add: captureScreenshot_def console_log_def)
qed

lemma capture_other_file:
  assumes "q \<noteq> p"
  shows "files (snd (captureScreenshot W url p s)) q = files s q"
proof -
  have t: "preserves (\<lambda>s. files s q) (captureScreenshot_try W url p)"
    unfolding captureScreenshot_try_def
    using assms
    by (intro preserves_andThen file_console_log file_acceptCookies file_page_do
          preserves_ensureDirectoryExistence) simp_all
  obtain r s' where c: "captureScreenshot_try W url p s = (r, s')"
    by (cases "captureScreenshot_try W url p s")
  have "files s' q = files s q" using preservesD [OF t, of s] c by simp
  then show ?thesis using c by (cases r) (simp_all add: captureScreenshot_def console_log_def)
qed

lemma screenshotPath_distinct:
  "screenshotPath ''staging'' p \<noteq> screenshotPath ''prod'' p"
  "screenshotPath ''diff'' p \<noteq> screenshotPath ''staging'' p"
  "screenshotPath ''diff'' p \<noteq> screenshotPath ''prod'' p"
  by (simp_all add: screenshotPath_def)

lemma compare_missing:
  assumes "files s a = None \<or> files s b = None"
  shows "compareScreenshots W a b d s
           = (Inr (Str ''Error''),
              s\<lparr>console := console s @ [''Missing file(s): '' @ a @ '' or '' @ b]\<rparr>)"
  using assms
  by (auto simp: compareScreenshots_def existsSync_def andThen_def console_log_def lift_def)

lemma andThen_captureScreenshot:
  "andThen (captureScreenshot W url path) f s = f () (snd (captureScreenshot W url path s))"
proof -
  obtain s' where "captureScreenshot W url path s = (Inr (), s')"
    using captureScreenshot_returns by blast
  then show ?thesis by (simp add: andThen_def)
qed

text \<open>
  C5 (as the code has it).  When a page's staging or prod capture fails and no file is
  at that screenshot path, the page's result is \<open>"Error"\<close>; the comparison resizes
  nothing and writes nothing: the files are those the two captures left, the file at
  the diff path is the one from before the page, and the missing screenshot is still
  missing.
\<close>

theorem missing_screenshot_is_error:
  assumes "(files s (screenshotPath ''staging'' p) = None
              \<and> fst (captureScreenshot_try W (baseUrl (staging cfg) @ p)
                        (screenshotPath ''staging'' p) s) = Inl e)
           \<or> (files s (screenshotPath ''prod'' p) = None
              \<and> fst (captureScreenshot_try W (baseUrl (production cfg) @ p)
                        (screenshotPath ''prod'' p)
                        (snd (captureScreenshot W (baseUrl (staging cfg) @ p)
                                (screenshotPath ''staging'' p) s))) = Inl e)"
  shows "\<exists>s'. comparePage W cfg p (rs, s)
                 = (rs @ [\<lparr> pagePath = p, similarityPercentage = Str ''Error'', error = None \<rparr>], s')
            \<and> files s' = files (snd (captureScreenshot W (baseUrl (production cfg) @ p)
                                       (screenshotPath ''prod'' p)
                                       (snd (captureScreenshot W (baseUrl (staging cfg) @ p)
                                               (screenshotPath ''staging'' p) s))))
            \<and> files s' (screenshotPath ''diff'' p) = files s (screenshotPath ''diff'' p)
            \<and> (files s' (screenshotPath ''staging'' p) = None
                \<or> files s' (screenshotPath ''prod'' p) = None)"
proof -
  let ?su = "baseUrl (staging cfg) @ p" and ?pu = "baseUrl (production cfg) @ p"
  let ?sp = "screenshotPath ''staging'' p" and ?pp = "screenshotPath ''prod'' p"
  let ?dp = "screenshotPath ''diff'' p"
  let ?s1 = "snd (captureScreenshot W ?su ?sp s)"
  let ?s2 = "snd (captureScreenshot W ?pu ?pp ?s1)"
  have c1: "captureScreenshot W ?su ?sp s = (Inr (), ?s1)"
    using captureScreenshot_returns [of W ?su ?sp s] by auto
  have c2: "captureScreenshot W ?pu ?pp ?s1 = (Inr (), ?s2)"
    using captureScreenshot_returns [of W ?pu ?pp ?s1] by auto
  have missing: "files ?s2 ?sp = None \<or> files ?s2 ?pp = None"
    using assms
  proof
    assume a: "files s ?sp = None \<and> fst (captureScreenshot_try W ?su ?sp s) = Inl e"
    then have "files ?s1 ?sp = None" by (simp add: failed_capture_files)
    then have "files ?s2 ?sp = None"
      using capture_other_file [of ?sp ?pp W ?pu ?s1] screenshotPath_distinct(1) [of p] by simp
    then show ?thesis ..
  next
    assume a: "files s ?pp = None \<and> fst (captureScreenshot_try W ?pu ?pp ?s1) = Inl e"
    have "files ?s1 ?pp = files s ?pp"
      using capture_other_file [of ?pp ?sp W ?su s] screenshotPath_distinct(1) [of p] by simp
    then have "files ?s2 ?pp = None" using a by (simp add: failed_capture_files)
    then show ?thesis ..
  qed
  let ?s3 = "?s2\<lparr>console := console ?s2 @ [''Missing file(s): '' @ ?sp @ '' or '' @ ?pp]\<rparr>"
  have cmp: "compareScreenshots W ?sp ?pp ?dp ?s2 = (Inr (Str ''Error''), ?s3)"
    using missing by (rule compare_missing)
  have page: "comparePage W cfg p (rs, s)
      = (rs @ [\<lparr> pagePath = p, similarityPercentage = Str ''Error'', error = None \<rparr>], ?s3)"
    by (simp add: comparePage_def Let_def andThen_captureScreenshot cmp)
  have diff: "files ?s2 ?dp = files s ?dp"
    using capture_other_file [of ?dp ?pp W ?pu ?s1] capture_other_file [of ?dp ?sp W ?su s]
      screenshotPath_distinct(2,3) [of p] by simp
  show ?thesis
    using page diff missing by (intro exI [of _ ?s3]) simp
qed

theorem missing_screenshot_is_error_witness:
  "files state0 (screenshotPath ''staging'' ''/'') = None
   \<and> fst (captureScreenshot_try world_down (baseUrl (staging one_page) @ ''/'')
            (screenshotPath ''staging'' ''/'') state0) = Inl ''net::ERR_CONNECTION_REFUSED''
   \<and> (\<exists>s'. comparePage world_down one_page ''/'' ([], state0)
               = ([\<lparr> pagePath = ''/'', similarityPercentage = Str ''Error'', error = None \<rparr>], s')
          \<and> files s' (screenshotPath ''diff'' ''/'') = None)"
proof -
  have none: "files state0 (screenshotPath ''staging'' ''/'') = None"
    by (simp add: state0_def)
  have refused: "fst (captureScreenshot_try world_down (baseUrl (staging one_page) @ ''/'')
            (screenshotPath ''staging'' ''/'') state0) = Inl ''net::ERR_CONNECTION_REFUSED''"
    by (simp add: captureScreenshot_try_def andThen_def console_log_def page_do_def
          world_down_def world_ok_def state0_def one_page_def Let_def)
  have nodiff: "files state0 (screenshotPath ''diff'' ''/'') = None"
    by (simp add: state0_def)
  show ?thesis
    using missing_screenshot_is_error
      [of state0 "''/''" world_down one_page "''net::ERR_CONNECTION_REFUSED''" "[]"]
      none refused nodiff
    by auto
qed

text \<open>
  C5 (as the spec has it) fails when an earlier run has left its screenshots: both
  captures of the page fail, the comparison finds the old files, resizes them in place,
  writes a diff image and reports a similarity.
\<close>

theorem stale_screenshot_counterexample:
  "fst (captureScreenshot_try world_down (baseUrl (staging one_page) @ ''/'')
          (screenshotPath ''staging'' ''/'') state_rerun) = Inl ''net::ERR_CONNECTION_REFUSED''
   \<and> map similarityPercentage (fst (comparePage world_down one_page ''/'' ([], state_rerun)))
       = [Number (Fin 75)]
   \<and> files (snd (comparePage world_down one_page ''/'' ([], state_rerun)))
        (screenshotPath ''diff'' ''/'') = Some (replicate 16 0)
   \<and> files (snd (comparePage world_down one_page ''/'' ([], state_rerun)))
        (screenshotPath ''staging'' ''/'') = Some [1, 0]"
  by (simp add: comparePage_def captureScreenshot_def captureScreenshot_try_def
        compareScreenshots_def resizeImage_def readFileSync_def writeFileSync_def existsSync_def
        similarity_def js_div_def new_png_def lift_def
        andThen_def console_log_def page_do_def world_down_def world_ok_def state_rerun_def
        one_page_def screenshotPath_def baseDir_def sanitize_def Let_def)

section \<open>An empty configuration\<close>

text \<open>
  C8 (as the code has it).  Once the browser context is open the test does not fail,
  whatever the configured page list; with an empty list it makes no call on the page,
  writes no screenshot and reports zero pages with all three counts at zero.
\<close>

theorem empty_configuration_completes:
  assumes "newContext_error W = None"
  shows "(urls (staging cfg) = [] \<longrightarrow>
            visualComparisonTest W cfg s
              = (Inr (\<lparr> total = 0, passedCount = 0, failedCount = 0, errorsCount = 0, rows = [] \<rparr>, []), s))
         \<and> (\<exists>rep rs s'. visualComparisonTest W cfg s = (Inr (rep, rs), s'))"
proof (intro conjI impI)
  assume "urls (staging cfg) = []"
  then show "visualComparisonTest W cfg s
              = (Inr (\<lparr> total = 0, passedCount = 0, failedCount = 0, errorsCount = 0, rows = [] \<rparr>, []), s)"
    using assms
    by (simp add: visualComparisonTest_def generateHtmlReport_def passed_def failed_def
          errors_def array_sort_def)
next
  show "\<exists>rep rs s'. visualComparisonTest W cfg s = (Inr (rep, rs), s')"
    using assms by (simp add: visualComparisonTest_def Let_def)
qed

theorem empty_configuration_completes_witness:
  "newContext_error world_ok = None
   \<and> urls (staging no_pages) = []
   \<and> visualComparisonTest world_ok no_pages state0
       = (Inr (\<lparr> total = 0, passedCount = 0, failedCount = 0, errorsCount = 0, rows = [] \<rparr>, []),
          state0)"
proof -
  have a: "newContext_error world_ok = None" by (simp add: world_ok_def)
  have b: "urls (staging no_pages) = []" by (simp add: no_pages_def)
  show ?thesis using empty_configuration_completes [OF a, of no_pages state0] a b by simp
qed

text \<open>
  C8 (as the spec has it) fails: with no page configured the run does not stop with an
  error, it returns the empty report.
\<close>

theorem empty_configuration_counterexample:
  "fst (visualComparisonTest world_ok no_pages state0)
     = Inr (\<lparr> total = 0, passedCount = 0, failedCount = 0, errorsCount = 0, rows = [] \<rparr>, [])
   \<and> calls (snd (visualComparisonTest world_ok no_pages state0)) = []
   \<and> files (snd (visualComparisonTest world_ok no_pages state0)) = Map.empty"
  by (simp add: visualComparisonTest_def world_ok_def no_pages_def state0_def
        generateHtmlReport_def passed_def failed_def errors_def array_sort_def)

section \<open>What the comparison does to the files\<close>

lemma andThen_never:
  "(\<And>x s'. fst (f x s') \<noteq> Inr v) \<Longrightarrow> fst (andThen m f s) \<noteq> Inr v"
  by (simp add: andThen_def split: prod.splits sum.splits)

lemma never_if:
  "fst (m s) \<noteq> Inr v \<Longrightarrow> fst (n s) \<noteq> Inr v \<Longrightarrow> fst ((if c then m else n) s) \<noteq> Inr v"
  by simp

lemma never_lift: "r \<noteq> Inr v \<Longrightarrow> fst (lift r s) \<noteq> Inr v"
  by (simp add: lift_def)

lemma compare_no_Error:
  assumes "files s a \<noteq> None" and "files s b \<noteq> None"
  shows "fst (compareScreenshots W a b d s) \<noteq> Inr (Str ''Error'')"
proof -
  have ex: "\<not> (\<not> existsSync a s \<or> \<not> existsSync b s)"
    using assms by (simp add: existsSync_def)
  show ?thesis
    unfolding compareScreenshots_def if_not_P [OF ex]
    by (intro andThen_never never_if never_lift) simp_all
qed

lemma preserves_readFileSync: "preserves obs (readFileSync path)"
  by (simp add: preserves_def readFileSync_def split: option.splits)

lemma file_writeFileSync: "q \<noteq> path \<Longrightarrow> preserves (\<lambda>s. files s q) (writeFileSync W path b)"
  by (simp add: preserves_def writeFileSync_def split: option.splits)

lemma resizeImage_ok:
  assumes "files s a = Some fa"
    and "sharp_resize W fa w h \<lparr> fit = Contain, background = (255, 255, 255, 0) \<rparr> = Inr ra"
    and "write_error W a = None"
  shows "resizeImage W a w h s = (Inr (), s\<lparr>files := (files s)(a \<mapsto> ra)\<rparr>)"
  using assms by (simp add: resizeImage_def andThen_def readFileSync_def lift_def writeFileSync_def)

lemma resize_rejected:
  assumes "files s a = Some fa" and "files s b \<noteq> None"
    and "sharp_resize W fa 1280 800 \<lparr> fit = Contain, background = (255, 255, 255, 0) \<rparr> = Inl e"
  shows "compareScreenshots W a b d s = (Inl e, s)"
  using assms
  by (simp add: compareScreenshots_def existsSync_def resizeImage_def andThen_def
        readFileSync_def lift_def)

lemma after_two_steps:
  assumes "m s = (Inr x, s1)" and "n s1 = (Inr y, s2)" and "\<And>z. preserves obs (K z)"
  shows "obs (snd (andThen m (\<lambda>_. andThen n K) s)) = obs s2"
  using assms(1,2) preservesD [OF assms(3), of y s2] by (simp add: andThen_def)

text \<open>
  C10 (as the code has it).  When both screenshots exist (at different paths, the diff
  going to a third), \<open>sharp\<close> resizes both and both can be written, then whatever the
  comparison returns or throws afterwards, the file at each screenshot path is the
  buffer resized to 1280 by 800, no longer the capture; and the images decoded for the
  differencing are read from those resized buffers, so a decoding error of a resized
  buffer is the comparison's error.
\<close>

theorem normalization_overwrites:
  assumes a: "files s a = Some fa" and b: "files s b = Some fb"
    and ab: "a \<noteq> b" and da: "d \<noteq> a" and db: "d \<noteq> b"
    and ra: "sharp_resize W fa 1280 800 \<lparr> fit = Contain, background = (255, 255, 255, 0) \<rparr> = Inr ra"
    and rb: "sharp_resize W fb 1280 800 \<lparr> fit = Contain, background = (255, 255, 255, 0) \<rparr> = Inr rb"
    and wa: "write_error W a = None" and wb: "write_error W b = None"
  shows "files (snd (compareScreenshots W a b d s)) a = Some ra
       \<and> files (snd (compareScreenshots W a b d s)) b = Some rb
       \<and> (png_read W ra = Inl e \<longrightarrow> fst (compareScreenshots W a b d s) = Inl e)
       \<and> (png_read W ra = Inr img1 \<and> png_read W rb = Inl e
            \<longrightarrow> fst (compareScreenshots W a b d s) = Inl e)"
proof -
  let ?s1 = "s\<lparr>files := (files s)(a \<mapsto> ra)\<rparr>"
  let ?s2 = "?s1\<lparr>files := (files ?s1)(b \<mapsto> rb)\<rparr>"
  have r1: "resizeImage W a 1280 800 s = (Inr (), ?s1)"
    using a ra wa by (rule resizeImage_ok)
  have "files ?s1 b = Some fb" using b ab by simp
  then have r2: "resizeImage W b 1280 800 ?s1 = (Inr (), ?s2)"
    using rb wb by (rule resizeImage_ok)
  have ex: "\<not> (\<not> existsSync a s \<or> \<not> existsSync b s)"
    using a b by (simp add: existsSync_def)
  have "files (snd (compareScreenshots W a b d s)) q = files ?s2 q" if "q \<noteq> d" for q
    unfolding compareScreenshots_def if_not_P [OF ex]
    by (rule after_two_steps [where m = "resizeImage W a 1280 800"
            and n = "resizeImage W b 1280 800", OF r1 r2])
       (intro preserves_andThen preserves_if preserves_lift preserves_readFileSync
          file_console_log file_writeFileSync that)
  note kept = this
  have decode1: "fst (compareScreenshots W a b d s) = Inl e" if "png_read W ra = Inl e"
    unfolding compareScreenshots_def if_not_P [OF ex]
    using a b ab ra rb wa wb that
    by (simp add: resizeImage_def andThen_def readFileSync_def writeFileSync_def lift_def)
  have decode2: "fst (compareScreenshots W a b d s) = Inl e"
    if "png_read W ra = Inr img1" and "png_read W rb = Inl e"
    unfolding compareScreenshots_def if_not_P [OF ex]
    using a b ab ra rb wa wb that
    by (simp add: resizeImage_def andThen_def readFileSync_def writeFileSync_def lift_def)
  show ?thesis
    using kept [of a] kept [of b] ab da db decode1 decode2 by simp
qed

lemma paths_differ:
  "screenshotPath ''staging'' ''/'' \<noteq> screenshotPath ''prod'' ''/''"
  "screenshotPath ''diff'' ''/'' \<noteq> screenshotPath ''staging'' ''/''"
  "screenshotPath ''diff'' ''/'' \<noteq> screenshotPath ''prod'' ''/''"
  by (rule screenshotPath_distinct)+

theorem normalization_overwrites_witness:
  "files state_rerun (screenshotPath ''staging'' ''/'') = Some [1]
   \<and> files state_rerun (screenshotPath ''prod'' ''/'') = Some [2]
   \<and> files (snd (compareScreenshots world_ok (screenshotPath ''staging'' ''/'')
                   (screenshotPath ''prod'' ''/'') (screenshotPath ''diff'' ''/'') state_rerun))
        (screenshotPath ''staging'' ''/'') = Some [1, 0]
   \<and> files (snd (compareScreenshots world_ok (screenshotPath ''staging'' ''/'')
                   (screenshotPath ''prod'' ''/'') (screenshotPath ''diff'' ''/'') state_rerun))
        (screenshotPath ''prod'' ''/'') = Some [2, 0]"
proof -
  have a: "files state_rerun (screenshotPath ''staging'' ''/'') = Some [1]"
    using paths_differ(1) by (simp add: state_rerun_def)
  have b: "files state_rerun (screenshotPath ''prod'' ''/'') = Some [2]"
    by (simp add: state_rerun_def)
  have ra: "sharp_resize world_ok [1] 1280 800
              \<lparr> fit = Contain, background = (255, 255, 255, 0) \<rparr> = Inr [1, 0]"
    by (simp add: world_ok_def)
  have rb: "sharp_resize world_ok [2] 1280 800
              \<lparr> fit = Contain, background = (255, 255, 255, 0) \<rparr> = Inr [2, 0]"
    by (simp add: world_ok_def)
  have wa: "write_error world_ok (screenshotPath ''staging'' ''/'') = None"
    and wb: "write_error world_ok (screenshotPath ''prod'' ''/'') = None"
    by (simp_all add: world_ok_def)
  show ?thesis
    using normalization_overwrites [OF a b paths_differ ra rb wa wb] a b by simp
qed

text \<open>
  C10 (as the spec has it) fails for a pair of existing files that \<open>sharp\<close> does not
  resize: the comparison throws the resizer's error and both files are what they were,
  the state being untouched.
\<close>

theorem unresized_pair_counterexample:
  "files state_rerun (screenshotPath ''staging'' ''/'') = Some [1]
   \<and> files state_rerun (screenshotPath ''prod'' ''/'') = Some [2]
   \<and> compareScreenshots world_unreadable (screenshotPath ''staging'' ''/'')
       (screenshotPath ''prod'' ''/'') (screenshotPath ''diff'' ''/'') state_rerun
     = (Inl ''Input buffer contains unsupported image format'', state_rerun)"
proof -
  have a: "files state_rerun (screenshotPath ''staging'' ''/'') = Some [1]"
    using paths_differ(1) by (simp add: state_rerun_def)
  have b: "files state_rerun (screenshotPath ''prod'' ''/'') = Some [2]"
    by (simp add: state_rerun_def)
  have "sharp_resize world_unreadable [1] 1280 800
          \<lparr> fit = Contain, background = (255, 255, 255, 0) \<rparr>
        = Inl ''Input buffer contains unsupported image format''"
    by (simp add: world_unreadable_def)
  then show ?thesis
    using a b resize_rejected [of state_rerun "screenshotPath ''staging'' ''/''" "[1]"
        "screenshotPath ''prod'' ''/''" world_unreadable]
    by simp
qed

section \<open>The similarity percentage\<close>

lemma similarity_positive:
  "0 < t \<Longrightarrow>
   similarity W t m = Fin (rounded W (rounded W ((real t - real m) / real t) * 100))"
  by (simp add: similarity_def js_div_def)

lemma channel_deviation_same: "channel_deviation p p = 0"
  by (cases p) simp

lemma mismatchedPixelCount_same: "0 \<le> t \<Longrightarrow> mismatchedPixelCount t img img = 0"
  by (simp add: mismatchedPixelCount_def zip_same_conv_map filter_empty_conv
        channel_deviation_same)

lemma plain_similarity:
  assumes "files s a = Some fa" and "files s b = Some fb"
    and "png_read W fa = Inr img1" and "png_read W fb = Inr img2"
    and "width img1 = width img2" and "height img1 = height img2"
    and "0 < width img1 * height img1"
    and "pixelmatch W (data img1) (data img2)
           (Some (replicate (width img1 * height img1 * 4) 0)) (width img1) (height img1)
           \<lparr> threshold = 1 / 10, diffColor = None, diffColorAlt = None \<rparr>
             = Inr (mismatchedPixels, buf)"
    and "write_error W d = None"
  shows "fst (compareScreenshots_plain W a b d s)
           = Inr (Fin (rounded W (rounded W ((real (width img1 * height img1)
                                               - real mismatchedPixels)
                                              / real (width img1 * height img1)) * 100)))"
  using assms
  by (simp add: compareScreenshots_plain_def andThen_def readFileSync_def writeFileSync_def
        lift_def console_log_def new_png_def similarity_def js_div_def)

text \<open>
  C6.  When the two resized screenshots decode to images of equal, non-zero dimensions
  and \<open>pixelmatch\<close> counts \<open>mismatchedPixels\<close>, the comparison returns
  \<open>(totalPixels - mismatchedPixels) / totalPixels * 100\<close> with \<open>totalPixels\<close> the
  width times the height, the quotient and the product each rounded to a double.  When
  the two images have the same data and the count is the one of the spec's differencer,
  the count is 0 and the similarity is exactly 100 (1 and 100 are doubles, which
  rounding leaves as they are).
\<close>

theorem similarity_formula:
  assumes a: "files s a = Some fa" and b: "files s b = Some fb" and ab: "a \<noteq> b"
    and ra: "sharp_resize W fa 1280 800 \<lparr> fit = Contain, background = (255, 255, 255, 0) \<rparr> = Inr ra"
    and rb: "sharp_resize W fb 1280 800 \<lparr> fit = Contain, background = (255, 255, 255, 0) \<rparr> = Inr rb"
    and wa: "write_error W a = None" and wb: "write_error W b = None"
    and wd: "write_error W d = None"
    and i1: "png_read W ra = Inr img1" and i2: "png_read W rb = Inr img2"
    and w: "width img1 = width img2" and h: "height img1 = height img2"
    and pos: "0 < width img1 * height img1"
    and drawn: "pixelmatch W (data img1) (data img2)
                  (Some (replicate (width img1 * height img1 * 4) 0)) (width img1) (height img1)
                  \<lparr> threshold = 1 / 10, diffColor = Some (0, 0, 255),
                    diffColorAlt = Some (255, 165, 0) \<rparr> = Inr (k, buf)"
    and counted: "pixelmatch W (data img1) (data img2) None (width img1) (height img1)
                  \<lparr> threshold = 1 / 10, diffColor = None, diffColorAlt = None \<rparr>
                    = Inr (mismatchedPixels, buf')"
  shows "fst (compareScreenshots W a b d s)
           = Inr (Number (Fin (rounded W
                    (rounded W ((real (width img1 * height img1) - real mismatchedPixels)
                                 / real (width img1 * height img1)) * 100))))
         \<and> (data img1 = data img2
              \<and> mismatchedPixels = mismatchedPixelCount (1 / 10) (data img1) (data img2)
              \<and> rounded W 1 = 1 \<and> rounded W 100 = 100
            \<longrightarrow> mismatchedPixels = 0
                \<and> fst (compareScreenshots W a b d s) = Inr (Number (Fin 100)))"
proof -
  have ex: "\<not> (\<not> existsSync a s \<or> \<not> existsSync b s)"
    using a b by (simp add: existsSync_def)
  have sim: "similarity W (width img1 * height img1) mismatchedPixels
               = Fin (rounded W
                    (rounded W ((real (width img1 * height img1) - real mismatchedPixels)
                                 / real (width img1 * height img1)) * 100))"
    using pos by (rule similarity_positive)
  have res: "fst (compareScreenshots W a b d s)
               = Inr (Number (similarity W (width img1 * height img1) mismatchedPixels))"
    unfolding compareScreenshots_def if_not_P [OF ex]
    using a b ab ra rb wa wb wd i1 i2 w h drawn counted
    by (simp add: resizeImage_def andThen_def readFileSync_def writeFileSync_def lift_def
          new_png_def)
  have formula: "fst (compareScreenshots W a b d s)
           = Inr (Number (Fin (rounded W
                    (rounded W ((real (width img1 * height img1) - real mismatchedPixels)
                                 / real (width img1 * height img1)) * 100))))"
    using res sim by simp
  have hundred: "mismatchedPixels = 0
                \<and> fst (compareScreenshots W a b d s) = Inr (Number (Fin 100))"
    if same: "data img1 = data img2"
      and spec: "mismatchedPixels = mismatchedPixelCount (1 / 10) (data img1) (data img2)"
      and one: "rounded W 1 = 1" and cent: "rounded W 100 = 100"
  proof -
    have zero: "mismatchedPixels = 0"
      using same spec by (simp add: mismatchedPixelCount_same)
    have "(real (width img1 * height img1) - real mismatchedPixels)
            / real (width img1 * height img1) = 1"
      using zero pos by simp
    then show ?thesis using formula zero one cent by simp
  qed
  show ?thesis
  proof (intro conjI impI)
    show "fst (compareScreenshots W a b d s)
           = Inr (Number (Fin (rounded W
                    (rounded W ((real (width img1 * height img1) - real mismatchedPixels)
                                 / real (width img1 * height img1)) * 100))))"
      by (rule formula)
  next
    assume c: "data img1 = data img2
              \<and> mismatchedPixels = mismatchedPixelCount (1 / 10) (data img1) (data img2)
              \<and> rounded W 1 = 1 \<and> rounded W 100 = 100"
    then show "mismatchedPixels = 0" using hundred by simp
    from c show "fst (compareScreenshots W a b d s) = Inr (Number (Fin 100))"
      using hundred by simp
  qed
qed

text \<open>With the differencer of the spec: two screenshots of two pixels that differ in one
  pixel are 50 percent similar, and two with the same bytes exactly 100 percent.\<close>

theorem similarity_formula_witness:
  "fst (compareScreenshots world_pixels (screenshotPath ''staging'' ''/'')
          (screenshotPath ''prod'' ''/'') (screenshotPath ''diff'' ''/'') state_changed)
     = Inr (Number (Fin 50))
   \<and> mismatchedPixelCount (1 / 10) [10, 20, 30, 255, 200, 100, 0, 255]
        [10, 20, 30, 255, 0, 100, 0, 255] = 1
   \<and> fst (compareScreenshots world_pixels (screenshotPath ''staging'' ''/'')
          (screenshotPath ''prod'' ''/'') (screenshotPath ''diff'' ''/'') state_identical)
     = Inr (Number (Fin 100))"
proof -
  let ?opts = "\<lparr> fit = Contain, background = (255, 255, 255, 0) \<rparr>"
  let ?draw = "\<lparr> threshold = 1 / 10, diffColor = Some (0, 0, 255),
                 diffColorAlt = Some (255, 165, 0) \<rparr>"
  let ?tally = "\<lparr> threshold = 1 / 10, diffColor = None, diffColorAlt = None \<rparr>"
  let ?sp = "screenshotPath ''staging'' ''/''" and ?pp = "screenshotPath ''prod'' ''/''"
  let ?dp = "screenshotPath ''diff'' ''/''"
  let ?same = "[10, 20, 30, 255, 200, 100, 0, 255] :: buffer"
  let ?other = "[10, 20, 30, 255, 0, 100, 0, 255] :: buffer"
  let ?i1 = "\<lparr> width = 1, height = 2, data = ?same \<rparr>"
  let ?i2 = "\<lparr> width = 1, height = 2, data = ?other \<rparr>"
  have count: "mismatchedPixelCount (1 / 10) ?same ?other = 1"
    by (simp add: mismatchedPixelCount_def)
  have count0: "mismatchedPixelCount (1 / 10) ?same ?same = 0"
    by (simp add: mismatchedPixelCount_same)
  have a: "files state_changed ?sp = Some ?same"
    using paths_differ(1) by (simp add: state_changed_def)
  have b: "files state_changed ?pp = Some ?other"
    by (simp add: state_changed_def)
  have a': "files state_identical ?sp = Some ?same"
    using paths_differ(1) by (simp add: state_identical_def)
  have b': "files state_identical ?pp = Some ?same"
    by (simp add: state_identical_def)
  have r1: "sharp_resize world_pixels ?same 1280 800 ?opts = Inr ?same"
    and r2: "sharp_resize world_pixels ?other 1280 800 ?opts = Inr ?other"
    by (simp_all add: world_pixels_def)
  have i1: "png_read world_pixels ?same = Inr ?i1"
    and i2: "png_read world_pixels ?other = Inr ?i2"
    by (simp_all add: world_pixels_def)
  have wa: "write_error world_pixels ?sp = None"
    and wb: "write_error world_pixels ?pp = None"
    and wd: "write_error world_pixels ?dp = None"
    by (simp_all add: world_pixels_def world_ok_def)
  have rnd: "rounded world_pixels x = x" for x
    by (simp add: world_pixels_def world_ok_def)
  have w12: "width ?i1 = width ?i2" and h12: "height ?i1 = height ?i2"
    and w11: "width ?i1 = width ?i1" and h11: "height ?i1 = height ?i1"
    and pos: "0 < width ?i1 * height ?i1"
    by simp_all
  have drawn: "pixelmatch world_pixels (data ?i1) (data ?i2)
                 (Some (replicate (width ?i1 * height ?i1 * 4) 0)) (width ?i1) (height ?i1) ?draw
               = Inr (1, replicate 8 0)"
    and counted: "pixelmatch world_pixels (data ?i1) (data ?i2) None (width ?i1) (height ?i1)
                    ?tally = Inr (1, replicate 8 0)"
    using count by (simp_all add: world_pixels_def)
  have drawn0: "pixelmatch world_pixels (data ?i1) (data ?i1)
                 (Some (replicate (width ?i1 * height ?i1 * 4) 0)) (width ?i1) (height ?i1) ?draw
               = Inr (0, replicate 8 0)"
    and counted0: "pixelmatch world_pixels (data ?i1) (data ?i1) None (width ?i1) (height ?i1)
                    ?tally = Inr (0, replicate 8 0)"
    using count0 by (simp_all add: world_pixels_def)
  have changed: "fst (compareScreenshots world_pixels ?sp ?pp ?dp state_changed)
                   = Inr (Number (Fin 50))"
    using similarity_formula [OF a b paths_differ(1) r1 r2 wa wb wd i1 i2 w12 h12 pos
        drawn counted]
    by (simp add: rnd)
  have identical: "fst (compareScreenshots world_pixels ?sp ?pp ?dp state_identical)
                     = Inr (Number (Fin 100))"
    using similarity_formula [OF a' b' paths_differ(1) r1 r1 wa wb wd i1 i1 w11 h11 pos
        drawn0 counted0] count0
    by (simp add: rnd)
  show ?thesis using changed count identical by simp
qed

section \<open>Where an error result comes from\<close>

lemma comparePage_compare:
  "comparePage W cfg p (rs, s) =
     (case compareScreenshots W (screenshotPath ''staging'' p) (screenshotPath ''prod'' p)
             (screenshotPath ''diff'' p) (after_captures W cfg p s) of
        (Inr sim, s') \<Rightarrow>
          (rs @ [\<lparr> pagePath = p, similarityPercentage = sim, error = None \<rparr>], s')
      | (Inl e, s') \<Rightarrow>
          (rs @ [\<lparr> pagePath = p, similarityPercentage = Str ''Error'', error = Some e \<rparr>], s'))"
  by (simp add: comparePage_def Let_def andThen_captureScreenshot after_captures_def
        split: prod.splits sum.splits)

text \<open>
  C9 (as the code has it).  \<open>captureScreenshot\<close> of the report-generating test always
  returns normally after exactly one navigation, and a failure of its \<open>try\<close> block is
  logged with its message.  A page's result is \<open>"Error"\<close> exactly when a screenshot
  file is missing after the two captures or the comparison itself throws (reading,
  resizing, decoding, differencing); the capture call is never the one that throws.
\<close>

theorem capture_never_throws:
  "(\<exists>s'. captureScreenshot W url path s = (Inr (), s')
        \<and> navigations s' = Suc (navigations s)
        \<and> (fst (captureScreenshot_try W url path s) = Inl e \<longrightarrow>
             last (console s') = ''Failed to capture screenshot for '' @ url @ '': '' @ e))
   \<and> (\<exists>r t'. comparePage W cfg p (rs, t) = (rs @ [r], t')
        \<and> (similarityPercentage r = Str ''Error'' \<longleftrightarrow>
             files (after_captures W cfg p t) (screenshotPath ''staging'' p) = None
             \<or> files (after_captures W cfg p t) (screenshotPath ''prod'' p) = None
             \<or> (\<exists>m. fst (compareScreenshots W (screenshotPath ''staging'' p)
                            (screenshotPath ''prod'' p) (screenshotPath ''diff'' p)
                            (after_captures W cfg p t)) = Inl m)))"
proof
  obtain s' where c: "captureScreenshot W url path s = (Inr (), s')"
    using captureScreenshot_returns by blast
  have "navigations s' = Suc (navigations s)"
    using navigations_captureScreenshot [of W url path s] c by simp
  moreover have "last (console s') = ''Failed to capture screenshot for '' @ url @ '': '' @ e"
    if "fst (captureScreenshot_try W url path s) = Inl e"
    using failed_capture_logged [OF that] c by simp
  ultimately show "\<exists>s'. captureScreenshot W url path s = (Inr (), s')
        \<and> navigations s' = Suc (navigations s)
        \<and> (fst (captureScreenshot_try W url path s) = Inl e \<longrightarrow>
             last (console s') = ''Failed to capture screenshot for '' @ url @ '': '' @ e)"
    using c by blast
next
  let ?sp = "screenshotPath ''staging'' p" and ?pp = "screenshotPath ''prod'' p"
  let ?dp = "screenshotPath ''diff'' p"
  let ?s2 = "after_captures W cfg p t"
  obtain out t' where cmp: "compareScreenshots W ?sp ?pp ?dp ?s2 = (out, t')"
    by (cases "compareScreenshots W ?sp ?pp ?dp ?s2")
  show "\<exists>r t'. comparePage W cfg p (rs, t) = (rs @ [r], t')
        \<and> (similarityPercentage r = Str ''Error'' \<longleftrightarrow>
             files ?s2 ?sp = None \<or> files ?s2 ?pp = None
             \<or> (\<exists>m. fst (compareScreenshots W ?sp ?pp ?dp ?s2) = Inl m))"
  proof (cases out)
    case (Inl m)
    then have "comparePage W cfg p (rs, t)
        = (rs @ [\<lparr> pagePath = p, similarityPercentage = Str ''Error'', error = Some m \<rparr>], t')"
      using cmp by (simp add: comparePage_compare)
    then show ?thesis using cmp Inl by auto
  next
    case (Inr sim)
    then have page: "comparePage W cfg p (rs, t)
        = (rs @ [\<lparr> pagePath = p, similarityPercentage = sim, error = None \<rparr>], t')"
      using cmp by (simp add: comparePage_compare)
    have "sim = Str ''Error'' \<longleftrightarrow> files ?s2 ?sp = None \<or> files ?s2 ?pp = None"
    proof
      assume e: "sim = Str ''Error''"
      show "files ?s2 ?sp = None \<or> files ?s2 ?pp = None"
      proof (rule ccontr)
        assume "\<not> (files ?s2 ?sp = None \<or> files ?s2 ?pp = None)"
        then have "fst (compareScreenshots W ?sp ?pp ?dp ?s2) \<noteq> Inr (Str ''Error'')"
          by (intro compare_no_Error) simp_all
        then show False using cmp Inr e by simp
      qed
    next
      assume "files ?s2 ?sp = None \<or> files ?s2 ?pp = None"
      then show "sim = Str ''Error''"
        using compare_missing [of ?s2 ?sp ?pp W ?dp] cmp Inr by simp
    qed
    then show ?thesis using page cmp Inr by auto
  qed
qed

theorem capture_never_throws_witness:
  "files (after_captures world_down one_page ''/'' state0) (screenshotPath ''staging'' ''/'') = None
   \<and> (\<exists>r t'. comparePage world_down one_page ''/'' ([], state0) = ([r], t')
          \<and> similarityPercentage r = Str ''Error'')
   \<and> (\<exists>s'. captureScreenshot world_down ''https://staging.example/'' ''shot.png'' state0
               = (Inr (), s')
          \<and> navigations s' = 1)"
proof -
  have none: "files (after_captures world_down one_page ''/'' state0)
                (screenshotPath ''staging'' ''/'') = None"
    by (simp add: after_captures_def captureScreenshot_def captureScreenshot_try_def
          andThen_def console_log_def page_do_def world_down_def world_ok_def state0_def
          one_page_def Let_def)
  have zero: "navigations state0 = 0"
    by (simp add: navigations_def state0_def)
  show ?thesis
    using capture_never_throws [of world_down "''https://staging.example/''" "''shot.png''"
        state0 "''net::ERR_CONNECTION_REFUSED''" one_page "''/''" "[]" state0] none zero
    by auto
qed

text \<open>
  C9 (as the spec has it) fails in its last part: here both captures succeed and both
  files exist, the resizer rejects the image, and the page's result is \<open>"Error"\<close> with
  the resizer's message, not through the missing-file check.
\<close>

theorem unreadable_screenshot_counterexample:
  "fst (comparePage world_unreadable one_page ''/'' ([], state0))
     = [\<lparr> pagePath = ''/'', similarityPercentage = Str ''Error'',
          error = Some ''Input buffer contains unsupported image format'' \<rparr>]
   \<and> files (snd (comparePage world_unreadable one_page ''/'' ([], state0)))
        (screenshotPath ''staging'' ''/'') = Some [7]
   \<and> files (snd (comparePage world_unreadable one_page ''/'' ([], state0)))
        (screenshotPath ''prod'' ''/'') = Some [7]"
  by (simp add: comparePage_def captureScreenshot_def captureScreenshot_try_def ensureDirectoryExistence_def acceptCookies_def
        page_isVisible_def
        compareScreenshots_def resizeImage_def readFileSync_def writeFileSync_def existsSync_def
        similarity_def js_div_def new_png_def lift_def
        andThen_def console_log_def page_do_def world_unreadable_def world_ok_def state0_def
        one_page_def screenshotPath_def baseDir_def sanitize_def Let_def)

section \<open>The records of a run\<close>

lemma andThen_Inr_result:
  assumes "fst (andThen m f s) = Inr v"
  obtains x s' where "m s = (Inr x, s')" and "fst (f x s') = Inr v"
  using assms by (auto simp: andThen_def split: prod.splits sum.splits)

lemma resizeImage_Inr:
  assumes "resizeImage W p w h s = (Inr u, s')"
  obtains b r where "files s p = Some b"
    and "sharp_resize W b w h \<lparr> fit = Contain, background = (255, 255, 255, 0) \<rparr> = Inr r"
    and "s' = s\<lparr>files := (files s)(p \<mapsto> r)\<rparr>"
  using assms
  by (auto simp: resizeImage_def andThen_def readFileSync_def lift_def writeFileSync_def
        split: option.splits sum.splits)

lemma compare_result_kinds:
  assumes dims: "\<And>b r img.
      sharp_resize W b 1280 800 \<lparr> fit = Contain, background = (255, 255, 255, 0) \<rparr> = Inr r
      \<Longrightarrow> png_read W r = Inr img \<Longrightarrow> width img = 1280 \<and> height img = 800"
    and res: "fst (compareScreenshots W a b d s) = Inr v"
  shows "v = Str ''Error'' \<or> (\<exists>x. v = Number (Fin x))"
proof (cases "files s a = None \<or> files s b = None")
  case True
  then show ?thesis using res compare_missing [OF True, of W d] by simp
next
  case False
  then have ex: "\<not> (\<not> existsSync a s \<or> \<not> existsSync b s)"
    by (simp add: existsSync_def)
  note step = res [unfolded compareScreenshots_def if_not_P [OF ex]]
  from step obtain u1 s1 where r1: "resizeImage W a 1280 800 s = (Inr u1, s1)"
    and step1: "fst (andThen (resizeImage W b 1280 800) (\<lambda>_.
        andThen (readFileSync a) (\<lambda>b1.
        andThen (lift (png_read W b1)) (\<lambda>img1.
        andThen (readFileSync b) (\<lambda>b2.
        andThen (lift (png_read W b2)) (\<lambda>img2.
          if width img1 \<noteq> width img2 \<or> height img1 \<noteq> height img2 then
            andThen (console_log (''Size mismatch for '' @ a @ '' and '' @ b))
              (\<lambda>_. lift (Inr (Str ''Size mismatch'')))
          else
            andThen (lift (pixelmatch W (data img1) (data img2)
                             (Some (data (new_png (width img1) (height img1))))
                             (width img1) (height img1)
                             \<lparr> threshold = 1 / 10, diffColor = Some (0, 0, 255),
                               diffColorAlt = Some (255, 165, 0) \<rparr>)) (\<lambda>drawn.
            andThen (writeFileSync W d
                       (png_write W ((new_png (width img1) (height img1))
                                       \<lparr> data := snd drawn \<rparr>))) (\<lambda>_.
            andThen (lift (pixelmatch W (data img1) (data img2) None
                             (width img1) (height img1)
                             \<lparr> threshold = 1 / 10, diffColor = None,
                               diffColorAlt = None \<rparr>)) (\<lambda>counted.
            lift (Inr (Number (similarity W (width img1 * height img1) (fst counted))))))))))))
        s1) = Inr v"
    by (rule andThen_Inr_result)
  from r1 obtain fa ra where s1: "s1 = s\<lparr>files := (files s)(a \<mapsto> ra)\<rparr>"
    and ra: "sharp_resize W fa 1280 800 \<lparr> fit = Contain, background = (255, 255, 255, 0) \<rparr> = Inr ra"
    by (rule resizeImage_Inr)
  from step1 obtain u2 s2 where r2: "resizeImage W b 1280 800 s1 = (Inr u2, s2)"
    and step2: "fst (andThen (readFileSync a) (\<lambda>b1.
        andThen (lift (png_read W b1)) (\<lambda>img1.
        andThen (readFileSync b) (\<lambda>b2.
        andThen (lift (png_read W b2)) (\<lambda>img2.
          if width img1 \<noteq> width img2 \<or> height img1 \<noteq> height img2 then
            andThen (console_log (''Size mismatch for '' @ a @ '' and '' @ b))
              (\<lambda>_. lift (Inr (Str ''Size mismatch'')))
          else
            andThen (lift (pixelmatch W (data img1) (data img2)
                             (Some (data (new_png (width img1) (height img1))))
                             (width img1) (height img1)
                             \<lparr> threshold = 1 / 10, diffColor = Some (0, 0, 255),
                               diffColorAlt = Some (255, 165, 0) \<rparr>)) (\<lambda>drawn.
            andThen (writeFileSync W d
                       (png_write W ((new_png (width img1) (height img1))
                                       \<lparr> data := snd drawn \<rparr>))) (\<lambda>_.
            andThen (lift (pixelmatch W (data img1) (data img2) None
                             (width img1) (height img1)
                             \<lparr> threshold = 1 / 10, diffColor = None,
                               diffColorAlt = None \<rparr>)) (\<lambda>counted.
            lift (Inr (Number (similarity W (width img1 * height img1) (fst counted)))))))))))
        s2) = Inr v"
    by (rule andThen_Inr_result)
  from r2 obtain fb rb where s2: "s2 = s1\<lparr>files := (files s1)(b \<mapsto> rb)\<rparr>"
    and rb: "sharp_resize W fb 1280 800 \<lparr> fit = Contain, background = (255, 255, 255, 0) \<rparr> = Inr rb"
    by (rule resizeImage_Inr)
  obtain ra' where fa2: "files s2 a = Some ra'"
    and ra': "sharp_resize W (if a = b then fb else fa) 1280 800
                \<lparr> fit = Contain, background = (255, 255, 255, 0) \<rparr> = Inr ra'"
    using s1 s2 ra rb by (cases "a = b") simp_all
  have fb2: "files s2 b = Some rb" using s2 by simp
  have d1: "width img = 1280 \<and> height img = 800" if "png_read W ra' = Inr img" for img
    using dims [OF ra' that] .
  have d2: "width img = 1280 \<and> height img = 800" if "png_read W rb = Inr img" for img
    using dims [OF rb that] .
  show ?thesis
    using step2 fa2 fb2 d1 d2
    by (auto simp: andThen_def readFileSync_def lift_def writeFileSync_def console_log_def
          similarity_def js_div_def split: sum.splits option.splits if_splits)
qed

lemma comparePage_record_kinds:
  assumes dims: "\<And>b r img.
      sharp_resize W b 1280 800 \<lparr> fit = Contain, background = (255, 255, 255, 0) \<rparr> = Inr r
      \<Longrightarrow> png_read W r = Inr img \<Longrightarrow> width img = 1280 \<and> height img = 800"
    and kinds: "list_all (\<lambda>r. is_error r \<or> is_similarity r) rs"
  shows "list_all (\<lambda>r. is_error r \<or> is_similarity r) (fst (comparePage W cfg p (rs, s)))"
proof -
  let ?c = "compareScreenshots W (screenshotPath ''staging'' p) (screenshotPath ''prod'' p)
              (screenshotPath ''diff'' p) (after_captures W cfg p s)"
  obtain out s' where c: "?c = (out, s')" by (cases ?c)
  show ?thesis
  proof (cases out)
    case (Inl e)
    then show ?thesis using c kinds by (simp add: comparePage_compare is_error_def)
  next
    case (Inr v)
    then have "v = Str ''Error'' \<or> (\<exists>x. v = Number (Fin x))"
      using compare_result_kinds [where W = W and a = "screenshotPath ''staging'' p"
          and b = "screenshotPath ''prod'' p" and d = "screenshotPath ''diff'' p"
          and s = "after_captures W cfg p s" and v = v, OF dims] c
      by simp
    then show ?thesis
      using c Inr kinds by (auto simp: comparePage_compare is_error_def is_similarity_def)
  qed
qed

lemma comparePages_record_kinds:
  assumes dims: "\<And>b r img.
      sharp_resize W b 1280 800 \<lparr> fit = Contain, background = (255, 255, 255, 0) \<rparr> = Inr r
      \<Longrightarrow> png_read W r = Inr img \<Longrightarrow> width img = 1280 \<and> height img = 800"
  shows "list_all (\<lambda>r. is_error r \<or> is_similarity r) rs \<Longrightarrow>
         list_all (\<lambda>r. is_error r \<or> is_similarity r) (fst (comparePages W cfg ps (rs, s)))"
proof (induction ps arbitrary: rs s)
  case Nil
  then show ?case by simp
next
  case (Cons p ps)
  obtain rs1 s1 where step: "comparePage W cfg p (rs, s) = (rs1, s1)"
    by (cases "comparePage W cfg p (rs, s)")
  have "list_all (\<lambda>r. is_error r \<or> is_similarity r) rs1"
    using comparePage_record_kinds [where W = W and cfg = cfg and p = p and s = s
        and rs = rs, OF dims Cons.prems] step
    by simp
  then show ?case using Cons.IH [of rs1 s1] step by simp
qed

text \<open>When every buffer that \<open>sharp\<close> has resized to 1280 by 800 decodes to an image of
  that size, the results of a run are similarities and \<open>"Error"\<close> records only.\<close>

lemma run_record_kinds:
  assumes "\<And>b r img.
      sharp_resize W b 1280 800 \<lparr> fit = Contain, background = (255, 255, 255, 0) \<rparr> = Inr r
      \<Longrightarrow> png_read W r = Inr img \<Longrightarrow> width img = 1280 \<and> height img = 800"
    and "visualComparisonTest W cfg s = (Inr (rep, rs), s')"
  shows "list_all (\<lambda>r. is_error r \<or> is_similarity r) rs"
proof -
  have "list_all (\<lambda>r. is_error r \<or> is_similarity r)
          (fst (comparePages W cfg (urls (staging cfg)) ([], s)))"
    by (rule comparePages_record_kinds [where W = W, OF assms(1)]) simp_all
  then show ?thesis
    using assms(2) by (auto simp: visualComparisonTest_def Let_def split: option.splits)
qed

end
